theory Spec2Isabelle
  imports Main "HOL-Library.Word" "HOL-Library.Char_ord" "HOL-Library.List_Lexorder"
    "HOL-Library.Product_Lexorder" "HOL-Library.Option_ord"
begin

section \<open>Python values shared by the modules\<close>

text \<open>
  An exception is a value: its class, its message (what \<^verbatim>\<open>str(e)\<close> prints) and the
  exception it was raised \<^verbatim>\<open>from\<close> (\<^verbatim>\<open>__cause__\<close>), if any. A function that can raise
  returns \<open>exn + 'a\<close>, with \<open>Inl\<close> for the raised exception. The class is the class of
  the object raised. All the classes below derive from \<^verbatim>\<open>Exception\<close>, so \<^verbatim>\<open>except Exception\<close>
  catches every one of them; none of \<^verbatim>\<open>FileNotFoundError\<close>, \<^verbatim>\<open>JSONDecodeError\<close> and
  \<^verbatim>\<open>AttributeError\<close> has a subclass among them, so a handler for one of these catches
  exactly the exceptions of that class.
\<close>

datatype exn_class =
  Exception | ValueError | FileNotFoundError | FileExistsError | IsADirectoryError
  | JSONDecodeError | UnicodeDecodeError | AttributeError | RecursionError

datatype exn = Exn (cls: exn_class) (msg: string) (cause: "exn option")

definition str_exn :: "exn \<Rightarrow> string" where
  "str_exn e = msg e"

text \<open>\<^verbatim>\<open>str(n)\<close> of a non-negative integer: its decimal digits.\<close>

definition digit_char :: "nat \<Rightarrow> char" where
  "digit_char d = char_of (48 + d)"

function str_nat :: "nat \<Rightarrow> string" where
  "str_nat n = (if n < 10 then [digit_char n] else str_nat (n div 10) @ [digit_char (n mod 10)])"
  by pat_completeness auto
termination
  by (relation "measure id") auto

declare str_nat.simps [simp del]

text \<open>
  A value that \<^verbatim>\<open>json.loads\<close> can return, and that \<^verbatim>\<open>json.dump\<close> can write: \<^verbatim>\<open>None\<close>,
  a bool, an int, a str, a list, or a dict with str keys (an association list, in
  insertion order, with distinct keys). Numbers are the integers; floats are left out.
\<close>

datatype json =
  JNull | JBool bool | JInt int | JStr string | JArr "json list" | JObj "(string \<times> json) list"

text \<open>What a file written by the program holds: the document given to \<^verbatim>\<open>json.dump\<close>, or text.\<close>

datatype file_data = JsonDump json | Text string

text \<open>
  What one thread of the program can see and change besides its arguments:
  \<^item> \<open>context_id\<close>: the attribute \<^verbatim>\<open>_thread_local_data.context_id\<close> of
    \<^verbatim>\<open>utils/qa_logging.py\<close>; \<open>None\<close> when the attribute does not exist on this thread,
    \<open>Some None\<close> when it holds Python's \<^verbatim>\<open>None\<close>, \<open>Some (Some c)\<close> when it holds the id \<open>c\<close>;
  \<^item> \<open>logged\<close>: the calls \<^verbatim>\<open>logger.log(level, message)\<close> made so far, oldest first;
  \<^item> \<open>slept\<close>: the arguments of the \<^verbatim>\<open>asyncio.sleep\<close> calls awaited so far, in seconds;
  \<^item> \<open>stdout\<close>: the lines written by \<^verbatim>\<open>print\<close>;
  \<^item> \<open>dirs\<close>: the directories that exist;
  \<^item> \<open>files\<close>: the files written so far, by path.
\<close>

record world =
  context_id :: "string option option"
  logged :: "(nat \<times> string) list"
  slept :: "nat list"
  stdout :: "string list"
  dirs :: "string set"
  files :: "string \<rightharpoonup> file_data"

definition DEBUG :: nat where
  "DEBUG = 10"

section \<open>utils/qa_logging.py\<close>

definition set_thread_context_id :: "string option \<Rightarrow> world \<Rightarrow> world" where
  "set_thread_context_id cid w = w\<lparr>context_id := Some cid\<rparr>"

text \<open>
  \<^verbatim>\<open>getattr(_thread_local_data, 'context_id', None)\<close> is \<^verbatim>\<open>None\<close> both when the
  attribute is absent and when it holds \<^verbatim>\<open>None\<close>; either way the function raises.
\<close>

definition get_thread_context_id :: "world \<Rightarrow> exn + string option" where
  "get_thread_context_id w =
     (let thread_context_id = (case context_id w of None \<Rightarrow> None | Some v \<Rightarrow> v)
      in if thread_context_id = None
         then Inl (Exn Exception ''invalid thread_context_id'' None)
         else Inr thread_context_id)"

definition clear_thread_context_id :: "world \<Rightarrow> world" where
  "clear_thread_context_id w =
     (if context_id w \<noteq> None then w\<lparr>context_id := None\<rparr> else w)"

text \<open>
  \<open>log_message\<close> keeps the source's two branches on the value that
  \<open>get_thread_context_id\<close> returned, although that value is never \<^verbatim>\<open>None\<close>.
\<close>

definition log_message :: "string \<Rightarrow> nat \<Rightarrow> world \<Rightarrow> exn + world" where
  "log_message log_data level w =
     (case get_thread_context_id w of
        Inl e \<Rightarrow> Inl e
      | Inr cid \<Rightarrow>
          (let formatted_message =
                 (case cid of
                    Some c \<Rightarrow> ''[CtxID: '' @ c @ ''] '' @ log_data
                  | None \<Rightarrow> log_data)
           in Inr (w\<lparr>logged := logged w @ [(level, formatted_message)]\<rparr>)))"

section \<open>The retrying invokers\<close>

text \<open>
  A chat client is any state machine: \<open>ainvoke c\<close> is the outcome of one
  \<^verbatim>\<open>await llm.ainvoke(messages)\<close> in client state \<open>c\<close> (the response, or the exception
  raised) together with the client's next state. The messages are the same at every
  attempt, so they are part of the client.
\<close>

type_synonym ('c, 'r) client = "'c \<Rightarrow> (exn + 'r) \<times> 'c"

text \<open>
  \<^verbatim>\<open>MultiModalTableInterpreter._call_llm_with_retry\<close>. The first argument of the loop
  counts the iterations left in \<^verbatim>\<open>range(retries)\<close>, \<open>i\<close> is the loop variable. A range
  that runs out falls off the end of the function, which returns \<^verbatim>\<open>None\<close>.
\<close>

fun call_llm_loop ::
  "('c, 'r) client \<Rightarrow> nat \<Rightarrow> nat \<Rightarrow> nat \<Rightarrow> world \<Rightarrow> 'c \<Rightarrow> (exn + 'r option) \<times> world \<times> 'c" where
  "call_llm_loop ainvoke retries 0 i w c = (Inr None, w, c)"
| "call_llm_loop ainvoke retries (Suc n) i w c =
     (case ainvoke c of
        (Inr response, c') \<Rightarrow> (Inr (Some response), w, c')
      | (Inl e, c') \<Rightarrow>
          (case log_message (''API call attempt '' @ str_nat (i + 1) @ ''/'' @ str_nat retries
                             @ '' failed: '' @ str_exn e) DEBUG w of
             Inl le \<Rightarrow> (Inl le, w, c')
           | Inr w' \<Rightarrow>
               if i = retries - 1
               then (Inl (Exn Exception ''API call failed after all retries'' (Some e)), w', c')
               else call_llm_loop ainvoke retries n (Suc i) (w'\<lparr>slept := slept w' @ [2 ^ i]\<rparr>) c'))"

definition call_llm_with_retry ::
  "('c, 'r) client \<Rightarrow> nat \<Rightarrow> world \<Rightarrow> 'c \<Rightarrow> (exn + 'r option) \<times> world \<times> 'c" where
  "call_llm_with_retry ainvoke retries w c = call_llm_loop ainvoke retries retries 0 w c"

text \<open>
  \<^verbatim>\<open>TableInterpreterAgent.call_llm_agent_with_retry\<close> of \<^verbatim>\<open>extract_table_agent.py\<close>:
  the handler only prints the exception, and the terminal exception is raised after the
  loop, outside any handler, so it has no cause.
\<close>

fun call_llm_agent_loop ::
  "('c, 'r) client \<Rightarrow> nat \<Rightarrow> world \<Rightarrow> 'c \<Rightarrow> (exn + 'r) \<times> world \<times> 'c" where
  "call_llm_agent_loop ainvoke 0 w c =
     (Inl (Exn Exception ''API call failed after retries'' None), w, c)"
| "call_llm_agent_loop ainvoke (Suc n) w c =
     (case ainvoke c of
        (Inr response, c') \<Rightarrow> (Inr response, w, c')
      | (Inl e, c') \<Rightarrow> call_llm_agent_loop ainvoke n (w\<lparr>stdout := stdout w @ [str_exn e]\<rparr>) c')"

definition call_llm_agent_with_retry ::
  "('c, 'r) client \<Rightarrow> nat \<Rightarrow> world \<Rightarrow> 'c \<Rightarrow> (exn + 'r) \<times> world \<times> 'c" where
  "call_llm_agent_with_retry ainvoke retries w c = call_llm_agent_loop ainvoke retries w c"

section \<open>The response parsers\<close>

text \<open>Python's \<^verbatim>\<open>str.strip()\<close>, \<^verbatim>\<open>str.removeprefix\<close> and \<^verbatim>\<open>str.removesuffix\<close>, on ASCII text.\<close>

definition is_space :: "char \<Rightarrow> bool" where
  "is_space c \<longleftrightarrow> of_char c \<in> {9, 10, 11, 12, 13, 28, 29, 30, 31, 32 :: nat}"

definition strip :: "string \<Rightarrow> string" where
  "strip s = rev (dropWhile is_space (rev (dropWhile is_space s)))"

definition startswith :: "string \<Rightarrow> string \<Rightarrow> bool" where
  "startswith s p \<longleftrightarrow> take (length p) s = p"

definition endswith :: "string \<Rightarrow> string \<Rightarrow> bool" where
  "endswith s x \<longleftrightarrow> length x \<le> length s \<and> drop (length s - length x) s = x"

definition removeprefix :: "string \<Rightarrow> string \<Rightarrow> string" where
  "removeprefix p s = (if startswith s p then drop (length p) s else s)"

definition removesuffix :: "string \<Rightarrow> string \<Rightarrow> string" where
  "removesuffix x s = (if x \<noteq> [] \<and> endswith s x then take (length s - length x) s else s)"

text \<open>
  \<^verbatim>\<open>json.loads\<close> belongs to Python's library, so the parsers take it as an argument:
  \<open>Inr v\<close> is the value decoded from the text, \<open>Inl e\<close> is the exception raised. That is a
  \<^verbatim>\<open>JSONDecodeError\<close> for text that is not JSON, but the library raises other classes
  too: \<^verbatim>\<open>ValueError\<close> for an integer of more digits than the interpreter converts,
  \<^verbatim>\<open>RecursionError\<close> for brackets nested too deep.
\<close>

type_synonym json_loads = "string \<Rightarrow> exn + json"

definition fence_json :: string where
  "fence_json = [CHR 0x60, CHR 0x60, CHR 0x60] @ ''json''"

definition fence :: string where
  "fence = [CHR 0x60, CHR 0x60, CHR 0x60]"

definition cleaned_content :: "string \<Rightarrow> string" where
  "cleaned_content content = strip (removesuffix fence (removeprefix fence_json (strip content)))"

text \<open>
  \<^verbatim>\<open>MultiModalTableInterpreter.call_agent\<close> from the point where the response has arrived
  (the \<^verbatim>\<open>try\<close> that parses it, to the end). \<open>content\<close> is \<^verbatim>\<open>response.content\<close>, a str, so
  the string methods do not raise. The handler is
  \<^verbatim>\<open>except (json.JSONDecodeError, AttributeError)\<close>: an exception of another class raised
  in the \<^verbatim>\<open>try\<close> leaves the function, and so does one raised inside the handler or after
  the \<^verbatim>\<open>try\<close>. The world is the one that the first lines of \<^verbatim>\<open>call_agent\<close> left, where
  the context id is set.
\<close>

definition call_agent_parse ::
  "json_loads \<Rightarrow> string \<Rightarrow> string \<Rightarrow> string \<Rightarrow> world \<Rightarrow> (exn + json) \<times> world" where
  "call_agent_parse loads log_base_path request_id content w =
     (case loads (cleaned_content content) of
        Inl e \<Rightarrow>
          if cls e = JSONDecodeError \<or> cls e = AttributeError
          then
            (case log_message (''Failed to parse JSON from LLM response. Error: '' @ str_exn e)
                    DEBUG w of
               Inl le \<Rightarrow> (Inl le, w)
             | Inr w1 \<Rightarrow>
                 (case log_message (''Raw response content: '' @ content) DEBUG w1 of
                    Inl le \<Rightarrow> (Inl le, w1)
                  | Inr w2 \<Rightarrow>
                      (Inr (JObj [(''error'', JStr ''Failed to parse JSON response''),
                                  (''content'', JStr content)]), w2)))
          else (Inl e, w)
      | Inr parsed_json \<Rightarrow>
          (case log_message ''Successfully parsed response from LLM.'' DEBUG w of
             Inl le \<Rightarrow> (Inl le, w)
           | Inr w1 \<Rightarrow>
               (let ai_step_output_path =
                      log_base_path @ ''/ai_output_table_extract_'' @ request_id @ ''.json''
                in (Inr parsed_json,
                    w1\<lparr>files := (files w1)(ai_step_output_path \<mapsto> JsonDump parsed_json)\<rparr>))))"


section \<open>utils/utils.py: the cross-model comparison\<close>

text \<open>
  What \<^verbatim>\<open>open(path, 'r', encoding='utf-8')\<close> followed by \<^verbatim>\<open>json.load\<close> does at a path:
  \<^item> \<open>NotFound\<close>: there is no file, and \<^verbatim>\<open>open\<close> raises \<^verbatim>\<open>FileNotFoundError\<close>;
  \<^item> \<open>NotJson\<close>: the file holds text that is not a JSON document, and \<^verbatim>\<open>json.load\<close>
    raises \<^verbatim>\<open>JSONDecodeError\<close>;
  \<^item> \<open>Fails e\<close>: opening, reading or decoding raises \<open>e\<close>, an exception of any class
    (\<^verbatim>\<open>IsADirectoryError\<close> for a directory, \<^verbatim>\<open>UnicodeDecodeError\<close> for bytes that are not
    UTF-8, \<^verbatim>\<open>RecursionError\<close> for brackets nested too deep);
  \<^item> \<open>Holds v\<close>: the file holds the JSON document \<open>v\<close>.
\<close>

datatype json_file = NotFound | NotJson | Fails exn | Holds json

type_synonym disk = "string \<Rightarrow> json_file"

definition quoted :: "string \<Rightarrow> string" where
  "quoted s = [CHR 0x27] @ s @ [CHR 0x27]"

definition load_json :: "disk \<Rightarrow> string \<Rightarrow> exn + json" where
  "load_json d path =
     (case d path of
        NotFound \<Rightarrow>
          Inl (Exn FileNotFoundError (''[Errno 2] No such file or directory: '' @ quoted path) None)
      | NotJson \<Rightarrow> Inl (Exn JSONDecodeError ''Expecting value'' None)
      | Fails e \<Rightarrow> Inl e
      | Holds v \<Rightarrow> Inr v)"

text \<open>\<^verbatim>\<open>os.path.basename\<close>: what follows the last slash.\<close>

definition basename :: "string \<Rightarrow> string" where
  "basename path = rev (takeWhile (\<lambda>c. c \<noteq> CHR ''/'') (rev path))"

text \<open>
  \<^verbatim>\<open>DeepDiff(reference_data, current_data, ignore_order=True)\<close> belongs to the deepdiff
  library. The call sets \<^verbatim>\<open>ignore_order\<close> and leaves \<^verbatim>\<open>report_repetition\<close> at its default,
  \<^verbatim>\<open>False\<close>; the library then ignores not only the order of list items but also how
  often an item is repeated (its documentation: \<^emph>\<open>ignore_order does not report duplicates
  and repetition changes\<close>). So it reports nothing exactly when the two values agree up
  to the order and the repetition of list items, at every depth: two lists agree when
  each item of one agrees with some item of the other (the lists \<^verbatim>\<open>[1, 1, 2]\<close> and
  \<^verbatim>\<open>[2, 1]\<close> agree), two dicts when they have the same keys and agree at each key, and
  any other two values when they are equal. \<open>deep_equiv\<close> is that relation, and
  \<open>DeepDiff_nonempty\<close> is the truth value of the diff. The text of \<^verbatim>\<open>diff.pretty()\<close> is an
  argument \<open>pretty\<close> of the comparison.
\<close>

fun deep_equiv :: "json \<Rightarrow> json \<Rightarrow> bool" where
  "deep_equiv (JArr xs) (JArr ys) \<longleftrightarrow>
     (\<forall>x\<in>set xs. \<exists>y\<in>set ys. deep_equiv x y) \<and> (\<forall>y\<in>set ys. \<exists>x\<in>set xs. deep_equiv x y)"
| "deep_equiv (JObj xs) (JObj ys) \<longleftrightarrow>
     set (map fst xs) = set (map fst ys) \<and>
     (\<forall>p\<in>set xs. \<forall>q\<in>set ys. fst p = fst q \<longrightarrow> deep_equiv (snd p) (snd q))"
| "deep_equiv a b \<longleftrightarrow> a = b"

definition DeepDiff_nonempty :: "json \<Rightarrow> json \<Rightarrow> bool" where
  "DeepDiff_nonempty reference_data current_data \<longleftrightarrow> \<not> deep_equiv reference_data current_data"

text \<open>
  The loop over \<^verbatim>\<open>file_paths[1:]\<close>. The result is the returned label, or the exception
  that leaves the function, with the lines printed so far. The handlers catch by class,
  as the \<^verbatim>\<open>except\<close> clauses do; any other exception propagates.
\<close>

fun compare_others ::
  "disk \<Rightarrow> (json \<Rightarrow> json \<Rightarrow> string) \<Rightarrow> json \<Rightarrow> string list \<Rightarrow> string list
     \<Rightarrow> (exn + string) \<times> string list" where
  "compare_others d pretty reference_data [] out =
     (Inr ''SUCCESS'', out @ [''--- ALL FILES MATCH ---''])"
| "compare_others d pretty reference_data (other_path # rest) out =
     (let out1 = out @ [''Comparing with '' @ quoted (basename other_path) @ ''...'']
      in case load_json d other_path of
           Inl e \<Rightarrow>
             if cls e = FileNotFoundError
             then (Inr ''FAILED'',
                   out1 @ [''Error: Comparison file not found at '' @ quoted other_path])
             else if cls e = JSONDecodeError
             then (Inr ''FAILED'',
                   out1 @ [''Error: Could not decode JSON from comparison file ''
                           @ quoted other_path])
             else (Inl e, out1)
         | Inr current_data \<Rightarrow>
             if DeepDiff_nonempty reference_data current_data
             then (Inr ''FAILED'',
                   out1 @ [''--- MISMATCH DETECTED ---'',
                           ''File '' @ quoted (basename other_path)
                             @ '' does not match the reference.'',
                           ''Detailed differences:'',
                           pretty reference_data current_data])
             else compare_others d pretty reference_data rest out1)"

definition compare_json_files_deepdiff ::
  "disk \<Rightarrow> (json \<Rightarrow> json \<Rightarrow> string) \<Rightarrow> string list \<Rightarrow> (exn + string) \<times> string list" where
  "compare_json_files_deepdiff d pretty file_paths =
     (if length file_paths < 2
      then (Inr ''NO_COMPARISON'',
            [''Warning: Less than two files provided. No comparison performed.''])
      else
        let reference_path = file_paths ! 0;
            out = [''Using '' @ quoted (basename reference_path) @ '' as the reference.'']
        in case load_json d reference_path of
             Inl e \<Rightarrow>
               if cls e = FileNotFoundError
               then (Inr ''FAILED'',
                     out @ [''Error: Reference file not found at '' @ quoted reference_path])
               else if cls e = JSONDecodeError
               then (Inr ''FAILED'',
                     out @ [''Error: Could not decode JSON from reference file ''
                            @ quoted reference_path])
               else (Inl e, out)
           | Inr reference_data \<Rightarrow>
               compare_others d pretty reference_data (drop 1 file_paths) out)"

section \<open>Constructing the agent\<close>

record agent =
  provider :: string
  model_name :: string
  log_base_path :: string
  system_prompt_path :: string

definition TABLE_EXTRACTOR_MODEL_FILE_PATH :: string where
  "TABLE_EXTRACTOR_MODEL_FILE_PATH = ''model/model_table_extractor.txt''"

text \<open>
  \<^verbatim>\<open>os.makedirs(path, exist_ok=True)\<close>: the directory exists afterwards; the call raises
  when a file is in the way.
\<close>

definition makedirs :: "string \<Rightarrow> world \<Rightarrow> exn + world" where
  "makedirs path w =
     (if path \<in> dom (files w)
      then Inl (Exn FileExistsError (''[Errno 17] File exists: '' @ quoted path) None)
      else Inr (w\<lparr>dirs := insert path (dirs w)\<rparr>))"

text \<open>\<^verbatim>\<open>MultiModalTableInterpreter.__init__\<close>: the new object, or the exception, and the world left.\<close>

definition init ::
  "string \<Rightarrow> string \<Rightarrow> string \<Rightarrow> string \<Rightarrow> world \<Rightarrow> (exn + agent) \<times> world" where
  "init provider' model_name' log_base_path' system_prompt_path' w =
     (if provider' \<notin> set [''openai'', ''google'', ''bedrock'']
      then (Inl (Exn ValueError
                  (''Provider must be one of '' @ quoted ''openai'' @ '', '' @ quoted ''google''
                   @ '', or '' @ quoted ''bedrock'') None), w)
      else
        let self = \<lparr>provider = provider', model_name = model_name',
                    log_base_path = log_base_path', system_prompt_path = system_prompt_path'\<rparr>
        in case makedirs (log_base_path self) w of
             Inl e \<Rightarrow> (Inl e, w)
           | Inr w' \<Rightarrow> (Inr self, w'))"

section \<open>Listing the images of a folder\<close>

text \<open>\<^verbatim>\<open>str.lower()\<close> on ASCII text, and \<^verbatim>\<open>str.endswith\<close> with a tuple of suffixes.\<close>

definition lower_char :: "char \<Rightarrow> char" where
  "lower_char c =
     (if 65 \<le> (of_char c :: nat) \<and> (of_char c :: nat) \<le> 90 then char_of (of_char c + 32 :: nat) else c)"

definition lower :: "string \<Rightarrow> string" where
  "lower s = map lower_char s"

definition endswith_any :: "string \<Rightarrow> string list \<Rightarrow> bool" where
  "endswith_any s suffixes \<longleftrightarrow> list_ex (endswith s) suffixes"

definition supported_extensions :: "string list" where
  "supported_extensions = [''.png'', ''.jpg'', ''.jpeg'', ''.bmp'', ''.gif'']"

text \<open>
  \<^verbatim>\<open>natsort.natsorted\<close> belongs to the natsort library. With its default algorithm it
  sorts (stably, as \<^verbatim>\<open>sorted\<close> does) by a key that cuts the name at every maximal run of
  decimal digits: \<^verbatim>\<open>'section_10.jpg'\<close> has the key \<^verbatim>\<open>('section_', 10, '.jpg')\<close>, and a name
  that starts with a digit gets an empty text in front. Keys compare as Python tuples
  do: position by position, texts by code point and numbers by value, a proper prefix
  before its extensions. \<open>natsort_key\<close> pairs every text with the number that follows it
  (\<open>None\<close> when the name ends there), so that the lexicographic order of the lists of
  pairs is that order of the tuples.
\<close>

definition is_digit :: "char \<Rightarrow> bool" where
  "is_digit c \<longleftrightarrow> 48 \<le> (of_char c :: nat) \<and> (of_char c :: nat) \<le> 57"

definition int_of_digits :: "string \<Rightarrow> nat" where
  "int_of_digits ds = foldl (\<lambda>n c. 10 * n + (of_char c - 48)) 0 ds"

function natsort_key :: "string \<Rightarrow> (string \<times> nat option) list" where
  "natsort_key s =
     (if s = [] then []
      else if takeWhile is_digit (dropWhile (\<lambda>c. \<not> is_digit c) s) = []
      then [(takeWhile (\<lambda>c. \<not> is_digit c) s, None)]
      else (takeWhile (\<lambda>c. \<not> is_digit c) s,
            Some (int_of_digits (takeWhile is_digit (dropWhile (\<lambda>c. \<not> is_digit c) s))))
           # natsort_key (dropWhile is_digit (dropWhile (\<lambda>c. \<not> is_digit c) s)))"
  by pat_completeness auto
termination
proof (relation "measure length")
  show "wf (measure length)" by simp
next
  fix s :: string
  assume "takeWhile is_digit (dropWhile (\<lambda>c. \<not> is_digit c) s) \<noteq> []"
  then have "length (dropWhile is_digit (dropWhile (\<lambda>c. \<not> is_digit c) s))
               < length (dropWhile (\<lambda>c. \<not> is_digit c) s)"
    by (cases "dropWhile (\<lambda>c. \<not> is_digit c) s")
       (simp_all add: le_imp_less_Suc length_dropWhile_le split: if_splits)
  also have "\<dots> \<le> length s"
    by (rule length_dropWhile_le)
  finally show "(dropWhile is_digit (dropWhile (\<lambda>c. \<not> is_digit c) s), s) \<in> measure length"
    by simp
qed

declare natsort_key.simps [simp del]

definition natsorted :: "string list \<Rightarrow> string list" where
  "natsorted names = sort_key natsort_key names"

text \<open>
  The list comprehension of \<^verbatim>\<open>process_folder_sequentially\<close>, and the filtering loop of
  both \<^verbatim>\<open>process_images_in_folder\<close>, over what \<^verbatim>\<open>os.listdir\<close> returned.
\<close>

definition image_files :: "string list \<Rightarrow> string list" where
  "image_files names = filter (\<lambda>f. endswith_any (lower f) supported_extensions) (natsorted names)"

section \<open>The image codec\<close>

text \<open>
  \<^verbatim>\<open>base64.b64encode\<close> and \<^verbatim>\<open>base64.b64decode\<close> belong to Python's library; they are
  the Base64 of RFC 4648 with the standard alphabet and \<^verbatim>\<open>=\<close> padding. Three bytes make a
  24-bit number, cut into four 6-bit digits; one or two bytes left at the end are filled
  with zero bits and padded. The decoder is the strict one: it accepts only whole groups
  of four characters of the alphabet, with padding in the last group only.
\<close>

type_synonym byte = "8 word"

definition b64_alphabet :: string where
  "b64_alphabet = ''ABCDEFGHIJKLMNOPQRSTUVWXYZabcdefghijklmnopqrstuvwxyz0123456789+/''"

definition b64_char :: "nat \<Rightarrow> char" where
  "b64_char k = b64_alphabet ! k"

fun index_of :: "char \<Rightarrow> string \<Rightarrow> nat option" where
  "index_of c [] = None"
| "index_of c (x # xs) = (if x = c then Some 0 else map_option Suc (index_of c xs))"

definition b64_index :: "char \<Rightarrow> nat option" where
  "b64_index c = index_of c b64_alphabet"

fun b64encode :: "byte list \<Rightarrow> string" where
  "b64encode [] = []"
| "b64encode [a] =
     (let n = unat a * 65536
      in [b64_char (n div 262144), b64_char (n div 4096 mod 64), CHR ''='', CHR ''=''])"
| "b64encode [a, b] =
     (let n = unat a * 65536 + unat b * 256
      in [b64_char (n div 262144), b64_char (n div 4096 mod 64), b64_char (n div 64 mod 64),
          CHR ''=''])"
| "b64encode (a # b # c # rest) =
     (let n = unat a * 65536 + unat b * 256 + unat c
      in [b64_char (n div 262144), b64_char (n div 4096 mod 64), b64_char (n div 64 mod 64),
          b64_char (n mod 64)] @ b64encode rest)"

fun b64decode :: "string \<Rightarrow> byte list option" where
  "b64decode [] = Some []"
| "b64decode (c1 # c2 # c3 # c4 # rest) =
     (if rest = [] \<and> c3 = CHR ''='' \<and> c4 = CHR ''=''
      then (case (b64_index c1, b64_index c2) of
              (Some i1, Some i2) \<Rightarrow>
                (let n = i1 * 262144 + i2 * 4096 in Some [of_nat (n div 65536)])
            | _ \<Rightarrow> None)
      else if rest = [] \<and> c4 = CHR ''=''
      then (case (b64_index c1, b64_index c2, b64_index c3) of
              (Some i1, Some i2, Some i3) \<Rightarrow>
                (let n = i1 * 262144 + i2 * 4096 + i3 * 64
                 in Some [of_nat (n div 65536), of_nat (n div 256 mod 256)])
            | _ \<Rightarrow> None)
      else (case (b64_index c1, b64_index c2, b64_index c3, b64_index c4) of
              (Some i1, Some i2, Some i3, Some i4) \<Rightarrow>
                (let n = i1 * 262144 + i2 * 4096 + i3 * 64 + i4
                 in map_option (\<lambda>bs. of_nat (n div 65536) # of_nat (n div 256 mod 256)
                                        # of_nat (n mod 256) # bs) (b64decode rest))
            | _ \<Rightarrow> None))"
| "b64decode _ = None"

text \<open>
  What the batch functions see of the file system: whether a path is a directory,
  whether it exists, what \<^verbatim>\<open>os.listdir\<close> returns for it, and the bytes that
  \<^verbatim>\<open>open(path, "rb").read()\<close> returns (\<open>None\<close> when opening or reading raises).
\<close>

record folder_env =
  isdir :: "string \<Rightarrow> bool"
  path_exists :: "string \<Rightarrow> bool"
  listdir :: "string \<Rightarrow> string list"
  read_bytes :: "string \<rightharpoonup> byte list"

text \<open>
  \<^verbatim>\<open>get_image_as_base64\<close> of \<^verbatim>\<open>extract_table_multi_model_agent.py\<close>; \<^verbatim>\<open>None\<close> is \<open>None\<close>.
  The encoded bytes are ASCII, so decoding them as UTF-8 gives the same characters.
\<close>

definition get_image_as_base64 :: "folder_env \<Rightarrow> string \<Rightarrow> string option" where
  "get_image_as_base64 env image_path =
     (case read_bytes env image_path of
        None \<Rightarrow> None
      | Some binary_data \<Rightarrow> Some (b64encode binary_data))"

text \<open>\<^verbatim>\<open>get_image_as_base64\<close> of \<^verbatim>\<open>extract_table_agent.py\<close>, which first asks whether the path exists.\<close>

definition table_agent_get_image_as_base64 :: "folder_env \<Rightarrow> string \<Rightarrow> string option" where
  "table_agent_get_image_as_base64 env image_path =
     (if \<not> path_exists env image_path then None
      else case read_bytes env image_path of
             None \<Rightarrow> None
           | Some binary_data \<Rightarrow> Some (b64encode binary_data))"

section \<open>Sequential batch processing\<close>

text \<open>\<^verbatim>\<open>os.path.join\<close> of two components, and \<^verbatim>\<open>Path(filename).stem\<close> of a name without slashes.\<close>

definition path_join :: "string \<Rightarrow> string \<Rightarrow> string" where
  "path_join a b =
     (if startswith b ''/'' then b
      else if a = [] \<or> endswith a ''/'' then a @ b
      else a @ ''/'' @ b)"

definition stem :: "string \<Rightarrow> string" where
  "stem name =
     (if CHR ''.'' \<notin> set name then name
      else
        let after = rev (takeWhile (\<lambda>c. c \<noteq> CHR ''.'') (rev name));
            i = length name - length after - 1
        in if 0 < i \<and> i < length name - 1 then take i name else name)"

text \<open>
  An agent is any state machine: \<open>call_agent a request_id json_data screenshots\<close> is what
  \<^verbatim>\<open>await agent.call_agent(...)\<close> returns or raises in agent state \<open>a\<close>, and the next state.
\<close>

type_synonym 'a call_agent = "'a \<Rightarrow> string \<Rightarrow> string \<Rightarrow> string list \<Rightarrow> (exn + json) \<times> 'a"

text \<open>The \<^verbatim>\<open>if isinstance(response, list) and len(response) == 1\<close> of the loop body.\<close>

definition single_table_data :: "json \<Rightarrow> json" where
  "single_table_data response =
     (case response of
        JArr items \<Rightarrow> if length items = 1 then items ! 0 else response
      | _ \<Rightarrow> response)"

text \<open>
  One iteration of the loop of \<^verbatim>\<open>process_folder_sequentially\<close>: the entry appended to
  \<^verbatim>\<open>all_extracted_data\<close> and the agent's next state. \<^verbatim>\<open>not table_image_b64\<close> holds for
  \<^verbatim>\<open>None\<close> and for the empty string. What the function prints is not modelled.
\<close>

definition process_image ::
  "folder_env \<Rightarrow> 'a call_agent \<Rightarrow> string \<Rightarrow> string \<Rightarrow> string \<Rightarrow> 'a \<Rightarrow> json \<times> 'a" where
  "process_image env call_agent request_id_prefix folder_path filename a =
     (let image_path = path_join folder_path filename;
          table_image_b64 = get_image_as_base64 env image_path
      in if table_image_b64 = None \<or> table_image_b64 = Some []
         then (JObj [(''error'', JStr ''Failed to encode image''), (''filename'', JStr filename)], a)
         else
           let image_request_id = request_id_prefix @ ''_'' @ stem filename
           in case call_agent a image_request_id ''{}'' [the table_image_b64] of
                (Inr response, a') \<Rightarrow> (single_table_data response, a')
              | (Inl e, a') \<Rightarrow>
                  (JObj [(''error'', JStr (str_exn e)), (''filename'', JStr filename)], a'))"

fun process_images ::
  "folder_env \<Rightarrow> 'a call_agent \<Rightarrow> string \<Rightarrow> string \<Rightarrow> string list \<Rightarrow> json list \<Rightarrow> 'a
     \<Rightarrow> json list \<times> 'a" where
  "process_images env call_agent request_id_prefix folder_path [] all_extracted_data a =
     (all_extracted_data, a)"
| "process_images env call_agent request_id_prefix folder_path (filename # rest) all_extracted_data a =
     (case process_image env call_agent request_id_prefix folder_path filename a of
        (entry, a') \<Rightarrow>
          process_images env call_agent request_id_prefix folder_path rest
            (all_extracted_data @ [entry]) a')"

text \<open>
  \<^verbatim>\<open>process_folder_sequentially\<close>: the value returned (\<open>None\<close> for the bare \<^verbatim>\<open>return\<close>), the
  agent's last state and the files, where \<^verbatim>\<open>json.dump\<close> has written the list.
\<close>

definition process_folder_sequentially ::
  "folder_env \<Rightarrow> 'a call_agent \<Rightarrow> string \<Rightarrow> string \<Rightarrow> string \<Rightarrow> 'a \<Rightarrow> (string \<rightharpoonup> file_data)
     \<Rightarrow> json list option \<times> 'a \<times> (string \<rightharpoonup> file_data)" where
  "process_folder_sequentially env call_agent request_id_prefix folder_path output_path a fs =
     (if \<not> isdir env folder_path then (None, a, fs)
      else
        case process_images env call_agent request_id_prefix folder_path
               (image_files (listdir env folder_path)) [] a of
          (all_extracted_data, a') \<Rightarrow>
            (Some all_extracted_data, a', fs(output_path \<mapsto> JsonDump (JArr all_extracted_data))))"

section \<open>Concrete inputs\<close>

text \<open>A thread that never set a context id, and the same thread inside \<^verbatim>\<open>call_agent\<close>.\<close>

definition fresh_thread :: world where
  "fresh_thread =
     \<lparr>context_id = None, logged = [], slept = [], stdout = [], dirs = {}, files = Map.empty\<rparr>"

definition thread_in_call :: world where
  "thread_in_call = set_thread_context_id (Some ''x7Kq2-4242'') fresh_thread"

text \<open>
  A client that fails twice and then answers, and one that never answers. The state of
  each counts the calls made.
\<close>

definition fails_twice :: "(nat, string) client" where
  "fails_twice k = (if k < 2 then Inl (Exn Exception ''rate limited'' None) else Inr ''[]'', Suc k)"

definition always_fails :: "(nat, string) client" where
  "always_fails k = (Inl (Exn Exception (''timeout '' @ str_nat k) None), Suc k)"

text \<open>
  The text \<^verbatim>\<open>{"a":1}\<close>, the same text inside a markdown fence, a text of 5000 digits,
  and a decoder that agrees with \<^verbatim>\<open>json.loads\<close> of Python 3.11 on the texts used below:
  it decodes the first, raises \<^verbatim>\<open>ValueError\<close> for an integer of more than 4300 digits and
  \<^verbatim>\<open>JSONDecodeError\<close> for \<^verbatim>\<open>not json\<close>.
\<close>

definition sample_object_text :: string where
  "sample_object_text = ''{'' @ [CHR 0x22] @ ''a'' @ [CHR 0x22] @ '':1}''"


definition long_digits :: string where
  "long_digits = replicate 5000 CHR ''1''"

definition loads_sample :: json_loads where
  "loads_sample s =
     (if s = sample_object_text then Inr (JObj [(''a'', JInt 1)])
      else if 4300 < length s \<and> list_all is_digit s
      then Inl (Exn ValueError ''Exceeds the limit (4300 digits) for integer string conversion''
                  None)
      else Inl (Exn JSONDecodeError ''Expecting value: line 1 column 1 (char 0)'' None))"

text \<open>
  Output files of six runs: the reference rows, the same rows in another order, rows
  with one value changed, a file that is not JSON, the reference rows with the first row
  twice, and a file whose bytes are not UTF-8 (a byte \<^verbatim>\<open>0xff\<close> inside a string). No other path exists.
  \<open>sample_pretty\<close> stands for the text of \<^verbatim>\<open>diff.pretty()\<close>.
\<close>

definition reference_rows :: json where
  "reference_rows = JArr [JObj [(''a'', JInt 1)], JObj [(''b'', JInt 2)]]"

definition reordered_rows :: json where
  "reordered_rows = JArr [JObj [(''b'', JInt 2)], JObj [(''a'', JInt 1)]]"

definition changed_rows :: json where
  "changed_rows = JArr [JObj [(''a'', JInt 1)], JObj [(''b'', JInt 3)]]"

definition repeated_rows :: json where
  "repeated_rows = JArr [JObj [(''a'', JInt 1)], JObj [(''a'', JInt 1)], JObj [(''b'', JInt 2)]]"

definition invalid_utf8 :: exn where
  "invalid_utf8 =
     Exn UnicodeDecodeError
       (quoted ''utf-8'' @ '' codec can'' @ [CHR 0x27]
        @ ''t decode byte 0xff in position 7: invalid start byte'') None"

definition sample_disk :: disk where
  "sample_disk path =
     (if path = ''logs/r1/extracted_data.json'' then Holds reference_rows
      else if path = ''logs/r2/extracted_data.json'' then Holds reordered_rows
      else if path = ''logs/r3/extracted_data.json'' then Holds changed_rows
      else if path = ''logs/r4/extracted_data.json'' then NotJson
      else if path = ''logs/r5/extracted_data.json'' then Holds repeated_rows
      else if path = ''logs/r6/extracted_data.json'' then Fails invalid_utf8
      else NotFound)"

definition sample_pretty :: "json \<Rightarrow> json \<Rightarrow> string" where
  "sample_pretty reference_data current_data = ''Value of root[1][b] changed from 2 to 3.''"


text \<open>
  A folder \<^verbatim>\<open>logs/tables\<close> with four files that end in a supported extension: two hold
  bytes (\<^verbatim>\<open>Man\<close> and \<^verbatim>\<open>Ma\<close>), one cannot be read and one is empty. The agent answers
  the first image with a list of one table and raises for any other; its state counts
  the calls.
\<close>

definition sample_env :: folder_env where
  "sample_env =
     \<lparr>isdir = (\<lambda>p. p = ''logs/tables''),
      path_exists = (\<lambda>p. p \<in> {''logs/tables'', ''logs/tables/section_1.png'',
                                ''logs/tables/section_2.png'', ''logs/tables/section_3.png'',
                                ''logs/tables/section_10.png''}),
      listdir = (\<lambda>p. if p = ''logs/tables''
                      then [''section_10.png'', ''section_2.png'', ''section_3.png'',
                            ''section_1.png'']
                      else []),
      read_bytes = (\<lambda>p. if p = ''logs/tables/section_1.png'' then Some [77, 97, 110]
                         else if p = ''logs/tables/section_3.png'' then Some [77, 97]
                         else if p = ''logs/tables/section_10.png'' then Some []
                         else None)\<rparr>"

definition sample_agent :: "nat call_agent" where
  "sample_agent k request_id json_data screenshots =
     (if screenshots = [''TWFu''] then Inr (JArr [JObj [(''rows'', JInt 3)]])
      else Inl (Exn Exception ''API call failed after all retries'' None), Suc k)"

text \<open>An agent that finds no table in any image.\<close>

definition silent_agent :: "nat call_agent" where
  "silent_agent k request_id json_data screenshots = (Inr (JArr []), Suc k)"

section \<open>Logging needs a context id\<close>

lemma log_message_set:
  "context_id w = Some (Some c) \<Longrightarrow>
   log_message m l w = Inr (w\<lparr>logged := logged w @ [(l, ''[CtxID: '' @ c @ ''] '' @ m)]\<rparr>)"
  by (simp add: log_message_def get_thread_context_id_def)

text \<open>
  C9. On a thread whose context id is absent (never set, or cleared) or holds \<^verbatim>\<open>None\<close>,
  \<open>log_message\<close> raises the exception of \<open>get_thread_context_id\<close> and logs nothing. Whenever
  \<open>log_message\<close> returns, a context id \<open>c\<close> was set and the line logged carries it: the
  branch that logs the bare message is never taken.
\<close>

theorem log_message_requires_context_id:
  "(context_id w = None \<or> context_id w = Some None \<longrightarrow>
      log_message log_data level w = Inl (Exn Exception ''invalid thread_context_id'' None))
   \<and> log_message log_data level (clear_thread_context_id w)
       = Inl (Exn Exception ''invalid thread_context_id'' None)
   \<and> (\<forall>w'. log_message log_data level w = Inr w' \<longrightarrow>
         (\<exists>c. context_id w = Some (Some c)
              \<and> w' = w\<lparr>logged := logged w @ [(level, ''[CtxID: '' @ c @ ''] '' @ log_data)]\<rparr>))"
  by (auto simp: log_message_def get_thread_context_id_def clear_thread_context_id_def
           split: option.splits if_splits)

theorem log_message_requires_context_id_witness:
  "log_message ''calling llm'' DEBUG fresh_thread
     = Inl (Exn Exception ''invalid thread_context_id'' None)
   \<and> log_message ''calling llm'' DEBUG (clear_thread_context_id thread_in_call)
       = Inl (Exn Exception ''invalid thread_context_id'' None)
   \<and> log_message ''calling llm'' DEBUG thread_in_call
       = Inr (thread_in_call\<lparr>logged := [(DEBUG, ''[CtxID: x7Kq2-4242] calling llm'')]\<rparr>)"
  using log_message_requires_context_id [of fresh_thread "''calling llm''" DEBUG]
    log_message_requires_context_id [of thread_in_call "''calling llm''" DEBUG]
  by (simp add: fresh_thread_def thread_in_call_def set_thread_context_id_def log_message_set)

section \<open>The retrying invokers\<close>

lemma call_llm_loop_failure:
  assumes "context_id w = Some (Some cid)" and "ainvoke c = (Inl e, c')"
  shows "call_llm_loop ainvoke retries (Suc n) i w c =
     (let w' = w\<lparr>logged := logged w @ [(DEBUG, ''[CtxID: '' @ cid @ ''] API call attempt ''
                  @ str_nat (i + 1) @ ''/'' @ str_nat retries @ '' failed: '' @ str_exn e)]\<rparr>
      in if i = retries - 1
         then (Inl (Exn Exception ''API call failed after all retries'' (Some e)), w', c')
         else call_llm_loop ainvoke retries n (Suc i) (w'\<lparr>slept := slept w' @ [2 ^ i]\<rparr>) c')"
  using assms by (simp add: log_message_set Let_def)

lemma call_llm_loop_success:
  assumes "ainvoke c = (Inr r, c')"
  shows "call_llm_loop ainvoke retries (Suc n) i w c = (Inr (Some r), w, c')"
  using assms by simp

text \<open>
  How an always failing client fares with any positive bound: with \<open>n\<close> iterations left at
  loop index \<open>i\<close>, the invoker sleeps \<open>2 ^ i\<close>, ..., \<open>2 ^ (i + n - 2)\<close> and then raises.
\<close>

lemma call_llm_loop_exhausted:
  assumes "\<forall>c. \<exists>e c'. ainvoke c = (Inl e, c')" and "context_id w = Some (Some cid)"
    and "i + n = retries" and "0 < n"
  shows "\<exists>e w' c'. call_llm_loop ainvoke retries n i w c
            = (Inl (Exn Exception ''API call failed after all retries'' (Some e)), w', c')
          \<and> slept w' = slept w @ map (\<lambda>k. 2 ^ k) [i..<retries - 1]
          \<and> length (logged w') = length (logged w) + n"
  using assms(2-)
proof (induction n arbitrary: i w c)
  case 0
  then show ?case by simp
next
  case (Suc n)
  obtain e c' where f: "ainvoke c = (Inl e, c')"
    using assms(1) by blast
  define w1 where "w1 = w\<lparr>logged := logged w @ [(DEBUG, ''[CtxID: '' @ cid @ ''] API call attempt ''
                  @ str_nat (i + 1) @ ''/'' @ str_nat retries @ '' failed: '' @ str_exn e)]\<rparr>"
  show ?case
  proof (cases "n = 0")
    case True
    with Suc.prems have "i = retries - 1" by simp
    with True Suc.prems show ?thesis
      by (simp add: call_llm_loop_failure [of w cid ainvoke c e c', OF Suc.prems(1) f] Let_def
            del: call_llm_loop.simps)
  next
    case False
    with Suc.prems have ne: "i \<noteq> retries - 1" and lt: "i < retries - 1" by simp_all
    have ctx: "context_id (w1\<lparr>slept := slept w1 @ [2 ^ i]\<rparr>) = Some (Some cid)"
      using Suc.prems(1) by (simp add: w1_def)
    from Suc.IH [OF ctx, of "Suc i" c'] False Suc.prems
    obtain e' w' c'' where r: "call_llm_loop ainvoke retries n (Suc i) (w1\<lparr>slept := slept w1 @ [2 ^ i]\<rparr>) c'
            = (Inl (Exn Exception ''API call failed after all retries'' (Some e')), w', c'')"
      and s: "slept w' = slept (w1\<lparr>slept := slept w1 @ [2 ^ i]\<rparr>) @ map (\<lambda>k. 2 ^ k) [Suc i..<retries - 1]"
      and l: "length (logged w') = length (logged (w1\<lparr>slept := slept w1 @ [2 ^ i]\<rparr>)) + n"
      by auto
    have "[i..<retries - 1] = i # [Suc i..<retries - 1]"
      using lt by (simp add: upt_conv_Cons)
    with r s l ne show ?thesis
      by (simp add: call_llm_loop_failure [of w cid ainvoke c e c', OF Suc.prems(1) f] Let_def w1_def
            del: call_llm_loop.simps)
  qed
qed

text \<open>
  C1, amended. \<^verbatim>\<open>MultiModalTableInterpreter._call_llm_with_retry\<close>, on a thread whose
  context id is set (as \<^verbatim>\<open>call_agent\<close> sets it): with a client that fails twice and then
  answers, and a bound of at least 3, it returns the answer after exactly three calls and
  two sleeps, of \<open>2 ^ 0\<close> and \<open>2 ^ 1\<close> seconds; with a client whose first three calls fail
  and a bound of 3, it makes exactly three calls, sleeps \<open>2 ^ 0\<close> and \<open>2 ^ 1\<close> seconds
  between them and raises an exception whose cause is the third failure; and with a
  client that always fails and any positive bound it sleeps \<open>2 ^ k\<close> seconds after failed
  attempt \<open>k\<close>, except after the last. \<^verbatim>\<open>TableInterpreterAgent.call_llm_agent_with_retry\<close>
  makes the same calls but never sleeps, and its terminal exception has no cause.
\<close>

theorem call_llm_with_retry_backoff:
  fixes ainvoke :: "('c, 'r) client"
  assumes "context_id w = Some (Some cid)"
    and "ainvoke c0 = (Inl e0, c1)" and "ainvoke c1 = (Inl e1, c2)"
  shows "(\<forall>r c3 retries. ainvoke c2 = (Inr r, c3) \<and> 3 \<le> retries \<longrightarrow>
            (\<exists>w'. call_llm_with_retry ainvoke retries w c0 = (Inr (Some r), w', c3)
                 \<and> slept w' = slept w @ [2 ^ 0, 2 ^ 1]
                 \<and> length (logged w') = length (logged w) + 2)
          \<and> (\<exists>w'. call_llm_agent_with_retry ainvoke retries w c0 = (Inr r, w', c3)
                 \<and> slept w' = slept w))
       \<and> (\<forall>e2 c3. ainvoke c2 = (Inl e2, c3) \<longrightarrow>
            (\<exists>w'. call_llm_with_retry ainvoke 3 w c0
                     = (Inl (Exn Exception ''API call failed after all retries'' (Some e2)), w', c3)
                 \<and> slept w' = slept w @ [2 ^ 0, 2 ^ 1]
                 \<and> length (logged w') = length (logged w) + 3)
          \<and> (\<exists>w'. call_llm_agent_with_retry ainvoke 3 w c0
                     = (Inl (Exn Exception ''API call failed after retries'' None), w', c3)
                 \<and> slept w' = slept w))
       \<and> (\<forall>retries. (\<forall>c. \<exists>e c'. ainvoke c = (Inl e, c')) \<and> 0 < retries \<longrightarrow>
            (\<exists>e w' c'. call_llm_with_retry ainvoke retries w c0
                     = (Inl (Exn Exception ''API call failed after all retries'' (Some e)), w', c')
                 \<and> slept w' = slept w @ map (\<lambda>k. 2 ^ k) [0..<retries - 1]
                 \<and> length (logged w') = length (logged w) + retries))"
proof (intro conjI allI impI)
  fix r c3 and retries :: nat
  assume a: "ainvoke c2 = (Inr r, c3) \<and> 3 \<le> retries"
  then obtain n where n: "retries = Suc (Suc (Suc n))"
    by (metis Suc_le_D numeral_3_eq_3 Suc_le_mono)
  show "\<exists>w'. call_llm_with_retry ainvoke retries w c0 = (Inr (Some r), w', c3)
          \<and> slept w' = slept w @ [2 ^ 0, 2 ^ 1] \<and> length (logged w') = length (logged w) + 2"
    using a assms by (simp add: call_llm_with_retry_def n log_message_set)
  show "\<exists>w'. call_llm_agent_with_retry ainvoke retries w c0 = (Inr r, w', c3) \<and> slept w' = slept w"
    using a assms by (simp add: call_llm_agent_with_retry_def n)
next
  fix e2 c3
  assume a: "ainvoke c2 = (Inl e2, c3)"
  show "\<exists>w'. call_llm_with_retry ainvoke 3 w c0
                = (Inl (Exn Exception ''API call failed after all retries'' (Some e2)), w', c3)
          \<and> slept w' = slept w @ [2 ^ 0, 2 ^ 1] \<and> length (logged w') = length (logged w) + 3"
    using a assms by (simp add: call_llm_with_retry_def numeral_3_eq_3 log_message_set)
  show "\<exists>w'. call_llm_agent_with_retry ainvoke 3 w c0
                = (Inl (Exn Exception ''API call failed after retries'' None), w', c3)
          \<and> slept w' = slept w"
    using a assms by (simp add: call_llm_agent_with_retry_def numeral_3_eq_3)
next
  fix retries :: nat
  assume a: "(\<forall>c. \<exists>e c'. ainvoke c = (Inl e, c')) \<and> 0 < retries"
  then show "\<exists>e w' c'. call_llm_with_retry ainvoke retries w c0
                = (Inl (Exn Exception ''API call failed after all retries'' (Some e)), w', c')
          \<and> slept w' = slept w @ map (\<lambda>k. 2 ^ k) [0..<retries - 1]
          \<and> length (logged w') = length (logged w) + retries"
    unfolding call_llm_with_retry_def
    using call_llm_loop_exhausted [of ainvoke w cid 0 retries retries c0] assms(1) by simp
qed

theorem call_llm_with_retry_backoff_witness:
  "fst (call_llm_with_retry fails_twice 5 thread_in_call 0) = Inr (Some ''[]'')
   \<and> slept (fst (snd (call_llm_with_retry fails_twice 5 thread_in_call 0))) = [1, 2]
   \<and> snd (snd (call_llm_with_retry fails_twice 5 thread_in_call 0)) = 3
   \<and> fst (call_llm_with_retry always_fails 3 thread_in_call 0)
       = Inl (Exn Exception ''API call failed after all retries''
                (Some (Exn Exception (''timeout '' @ str_nat 2) None)))
   \<and> slept (fst (snd (call_llm_with_retry always_fails 3 thread_in_call 0))) = [1, 2]
   \<and> snd (snd (call_llm_with_retry always_fails 3 thread_in_call 0)) = 3
   \<and> slept (fst (snd (call_llm_with_retry always_fails 5 thread_in_call 0))) = [1, 2, 4, 8]"
proof -
  have ctx: "context_id thread_in_call = Some (Some ''x7Kq2-4242'')"
    and s0: "slept thread_in_call = []"
    by (simp_all add: thread_in_call_def fresh_thread_def set_thread_context_id_def)
  have f: "fails_twice 0 = (Inl (Exn Exception ''rate limited'' None), 1)"
    "fails_twice 1 = (Inl (Exn Exception ''rate limited'' None), 2)"
    "fails_twice 2 = (Inr ''[]'', 3) \<and> (3::nat) \<le> 5"
    by (simp_all add: fails_twice_def)
  have a: "always_fails 0 = (Inl (Exn Exception (''timeout '' @ str_nat 0) None), 1)"
    "always_fails 1 = (Inl (Exn Exception (''timeout '' @ str_nat 1) None), 2)"
    "always_fails 2 = (Inl (Exn Exception (''timeout '' @ str_nat 2) None), 3)"
    "(\<forall>c. \<exists>e c'. always_fails c = (Inl e, c')) \<and> (0::nat) < 5"
    by (simp_all add: always_fails_def)
  have u: "map (\<lambda>k. 2 ^ k) [0..<5 - 1] = [1, 2, 4, 8 :: nat]"
    by (simp add: upt_rec)
  note t1 = call_llm_with_retry_backoff [OF ctx f(1) f(2)]
  note t2 = call_llm_with_retry_backoff [OF ctx a(1) a(2)]
  from t1 [THEN conjunct1, THEN spec, THEN spec, THEN spec, THEN mp, OF f(3), THEN conjunct1]
  obtain w1 where w1: "call_llm_with_retry fails_twice 5 thread_in_call 0 = (Inr (Some ''[]''), w1, 3)"
    "slept w1 = slept thread_in_call @ [2 ^ 0, 2 ^ 1]"
    by blast
  from t2 [THEN conjunct2, THEN conjunct1, THEN spec, THEN spec, THEN mp, OF a(3), THEN conjunct1]
  obtain w2 where w2: "call_llm_with_retry always_fails 3 thread_in_call 0
      = (Inl (Exn Exception ''API call failed after all retries''
                (Some (Exn Exception (''timeout '' @ str_nat 2) None))), w2, 3)"
    "slept w2 = slept thread_in_call @ [2 ^ 0, 2 ^ 1]"
    by blast
  from t2 [THEN conjunct2, THEN conjunct2, THEN spec, THEN mp, OF a(4)]
  obtain e w3 c' where w3: "call_llm_with_retry always_fails 5 thread_in_call 0
      = (Inl (Exn Exception ''API call failed after all retries'' (Some e)), w3, c')"
    "slept w3 = slept thread_in_call @ map (\<lambda>k. 2 ^ k) [0..<5 - 1]"
    by blast
  show ?thesis
    using w1 w2 w3 s0 u by simp
qed

text \<open>
  The older invoker with the client that fails twice: it returns the answer after three
  calls, having printed the two exceptions and slept not at all; and when every call
  fails, the exception it raises has no cause.
\<close>

theorem call_llm_agent_with_retry_counterexample:
  "call_llm_agent_with_retry fails_twice 15 thread_in_call 0
     = (Inr ''[]'', thread_in_call\<lparr>stdout := [''rate limited'', ''rate limited'']\<rparr>, 3)
   \<and> slept (thread_in_call\<lparr>stdout := [''rate limited'', ''rate limited'']\<rparr>) = []
   \<and> fst (call_llm_agent_with_retry always_fails 3 thread_in_call 0)
     = Inl (Exn Exception ''API call failed after retries'' None)"
  by (simp add: fails_twice_def always_fails_def thread_in_call_def fresh_thread_def
        set_thread_context_id_def call_llm_agent_with_retry_def eval_nat_numeral str_exn_def)

section \<open>The response parsers\<close>

lemma strip_core:
  assumes "x \<noteq> []" "\<not> is_space (hd x)" "\<not> is_space (last x)"
    and "\<forall>c\<in>set a. is_space c" "\<forall>c\<in>set b. is_space c"
  shows "strip (a @ x @ b) = x"
proof -
  have 1: "dropWhile is_space (a @ x @ b) = x @ b"
    using assms by (cases x) (simp_all add: dropWhile_append)
  have 2: "dropWhile is_space (rev (x @ b)) = rev x"
    using assms by (cases x rule: rev_cases) (simp_all add: dropWhile_append)
  show ?thesis by (simp add: strip_def 1 2 del: rev_append)
qed



text \<open>Text of one repeated character, neither white space nor a backquote, is left as it is.\<close>

lemma cleaned_content_replicate:
  assumes "0 < n" and "\<not> is_space c" and "c \<noteq> CHR 0x60"
  shows "cleaned_content (replicate n c) = replicate n c"
proof -
  have ne: "replicate n c \<noteq> []"
    using assms(1) by simp
  have s: "strip (replicate n c) = replicate n c"
    using strip_core [of "replicate n c" "[]" "[]"] assms ne
    by (simp add: hd_replicate last_replicate)
  have p: "\<not> startswith (replicate n c) fence_json"
  proof
    assume "startswith (replicate n c) fence_json"
    then have e: "take (length fence_json) (replicate n c) = fence_json"
      unfolding startswith_def by blast
    have "set (take k (replicate n c)) \<subseteq> {c}" for k
      using set_take_subset [of k "replicate n c"] by auto
    with e have "set fence_json \<subseteq> {c}"
      by metis
    then show False
      using assms(3) by (simp add: fence_json_def)
  qed
  have q: "\<not> endswith (replicate n c) fence"
  proof
    assume "endswith (replicate n c) fence"
    then have e: "drop (length (replicate n c) - length fence) (replicate n c) = fence"
      unfolding endswith_def by blast
    have "set (drop k (replicate n c)) \<subseteq> {c}" for k
      using set_drop_subset [of k "replicate n c"] by auto
    with e have "set fence \<subseteq> {c}"
      by metis
    then show False
      using assms(3) by (simp add: fence_def)
  qed
  show ?thesis
    by (simp add: cleaned_content_def s removeprefix_def removesuffix_def p q)
qed




text \<open>
  What the handler of the newer parser does not catch leaves \<^verbatim>\<open>call_agent\<close>: an exception
  of \<^verbatim>\<open>json.loads\<close> of a class other than \<^verbatim>\<open>JSONDecodeError\<close> and \<^verbatim>\<open>AttributeError\<close>, such
  as the \<^verbatim>\<open>ValueError\<close> for a response of 5000 digits.
\<close>

lemma call_agent_parse_propagates:
  assumes "loads (cleaned_content content) = Inl e"
    and "cls e \<noteq> JSONDecodeError" and "cls e \<noteq> AttributeError"
  shows "call_agent_parse loads base rid content w = (Inl e, w)"
  using assms by (simp add: call_agent_parse_def)

lemma call_agent_parse_long_digits:
  "call_agent_parse loads_sample ''./logs/bedrock_sonet35'' ''1_section_1'' long_digits
     thread_in_call
   = (Inl (Exn ValueError ''Exceeds the limit (4300 digits) for integer string conversion'' None),
      thread_in_call)"
proof -
  have c: "cleaned_content long_digits = long_digits"
    unfolding long_digits_def by (rule cleaned_content_replicate) (simp_all add: is_space_def)
  have "length long_digits \<noteq> length sample_object_text"
    by (simp add: long_digits_def sample_object_text_def)
  then have "long_digits \<noteq> sample_object_text"
    by auto
  moreover have "4300 < length long_digits \<and> list_all is_digit long_digits"
    by (simp add: long_digits_def list_all_iff is_digit_def)
  ultimately have "loads_sample long_digits
      = Inl (Exn ValueError ''Exceeds the limit (4300 digits) for integer string conversion'' None)"
    by (simp add: loads_sample_def)
  then show ?thesis
    by (intro call_agent_parse_propagates) (simp_all add: c)
qed

section \<open>The cross-model comparison\<close>

text \<open>
  The loop returns a label, unless one of the files raises an exception that is neither
  \<^verbatim>\<open>FileNotFoundError\<close> nor \<^verbatim>\<open>JSONDecodeError\<close>: that exception leaves the function.
\<close>

lemma load_json_cases:
  "(\<exists>v. load_json d p = Inr v)
   \<or> (\<exists>e. load_json d p = Inl e \<and> (cls e = FileNotFoundError \<or> cls e = JSONDecodeError))
   \<or> (\<exists>e. load_json d p = Inl e \<and> d p = Fails e
           \<and> cls e \<noteq> FileNotFoundError \<and> cls e \<noteq> JSONDecodeError)"
  by (cases "d p") (auto simp: load_json_def)

lemma compare_others_label_or_uncaught:
  "(\<exists>l out'. compare_others d pretty r ps out = (Inr l, out') \<and> l \<in> {''SUCCESS'', ''FAILED''})
   \<or> (\<exists>p e out'. p \<in> set ps \<and> d p = Fails e
          \<and> cls e \<noteq> FileNotFoundError \<and> cls e \<noteq> JSONDecodeError
          \<and> compare_others d pretty r ps out = (Inl e, out'))"
proof (induction ps arbitrary: out)
  case Nil
  then show ?case by simp
next
  case (Cons p ps)
  from load_json_cases [of d p]
  consider (loaded) v where "load_json d p = Inr v"
    | (caught) e where "load_json d p = Inl e"
        "cls e = FileNotFoundError \<or> cls e = JSONDecodeError"
    | (uncaught) e where "load_json d p = Inl e" "d p = Fails e"
        "cls e \<noteq> FileNotFoundError" "cls e \<noteq> JSONDecodeError"
    by blast
  then show ?case
  proof cases
    case loaded
    show ?thesis
    proof (cases "DeepDiff_nonempty r v")
      case True
      with loaded show ?thesis by (simp add: Let_def)
    next
      case False
      from Cons [of "out @ [''Comparing with '' @ quoted (basename p) @ ''...'']"]
      show ?thesis
        using loaded False by (auto simp: Let_def)
    qed
  next
    case caught
    then show ?thesis by (auto simp: Let_def)
  next
    case uncaught
    then show ?thesis by (auto simp: Let_def)
  qed
qed

lemma compare_json_files_deepdiff_label_or_uncaught:
  "(\<exists>l out. compare_json_files_deepdiff d pretty file_paths = (Inr l, out)
       \<and> l \<in> {''SUCCESS'', ''FAILED'', ''NO_COMPARISON''})
   \<or> (\<exists>p e out. p \<in> set file_paths \<and> d p = Fails e
          \<and> cls e \<noteq> FileNotFoundError \<and> cls e \<noteq> JSONDecodeError
          \<and> compare_json_files_deepdiff d pretty file_paths = (Inl e, out))"
proof (cases "length file_paths < 2")
  case True
  then show ?thesis by (simp add: compare_json_files_deepdiff_def)
next
  case False
  then obtain reference_path others where ps: "file_paths = reference_path # others"
    by (cases file_paths) auto
  from load_json_cases [of d reference_path]
  consider (loaded) v where "load_json d reference_path = Inr v"
    | (caught) e where "load_json d reference_path = Inl e"
        "cls e = FileNotFoundError \<or> cls e = JSONDecodeError"
    | (uncaught) e where "load_json d reference_path = Inl e" "d reference_path = Fails e"
        "cls e \<noteq> FileNotFoundError" "cls e \<noteq> JSONDecodeError"
    by blast
  then show ?thesis
  proof cases
    case loaded
    from compare_others_label_or_uncaught [of d pretty v others
        "[''Using '' @ quoted (basename reference_path) @ '' as the reference.'']"]
    show ?thesis
      using loaded False
      by (auto simp: compare_json_files_deepdiff_def Let_def ps
            simp del: compare_others.simps)
  next
    case caught
    then show ?thesis
      using False by (auto simp: compare_json_files_deepdiff_def Let_def ps)
  next
    case uncaught
    then show ?thesis
      using False by (auto simp: compare_json_files_deepdiff_def Let_def ps)
  qed
qed

lemma compare_others_success:
  "fst (compare_others d pretty r ps out) = Inr ''SUCCESS'' \<longleftrightarrow>
     (\<forall>p\<in>set ps. \<exists>v. d p = Holds v \<and> deep_equiv r v)"
proof (induction ps arbitrary: out)
  case Nil
  then show ?case by simp
next
  case (Cons p ps)
  show ?case
    by (cases "d p") (simp_all add: Let_def load_json_def DeepDiff_nonempty_def Cons)
qed

text \<open>
  The loop stops at the first file that differs from the reference: the result ends with
  the diff of that pair, and the paths after it do not matter.
\<close>

lemma compare_others_first_mismatch:
  assumes "\<forall>p\<in>set pre. \<exists>v. d p = Holds v \<and> deep_equiv r v"
    and "d p = Holds v" and "\<not> deep_equiv r v"
  shows "\<exists>out'. compare_others d pretty r (pre @ p # rest) out
                  = (Inr ''FAILED'', out' @ [pretty r v])"
  using assms(1)
proof (induction pre arbitrary: out)
  case Nil
  have "out @ [a, b, c, e, f] = (out @ [a, b, c, e]) @ [f]" for a b c e f :: string
    by simp
  then show ?case
    using assms(2,3) by (simp add: Let_def load_json_def DeepDiff_nonempty_def del: append_assoc)
next
  case (Cons q pre)
  then obtain u where "d q = Holds u" "deep_equiv r u" by auto
  with Cons show ?case
    by (simp add: Let_def load_json_def DeepDiff_nonempty_def)
qed

lemma compare_others_short_circuit:
  assumes "\<forall>p\<in>set pre. \<exists>v. d p = Holds v \<and> deep_equiv r v"
    and "d p = Holds v" and "\<not> deep_equiv r v"
  shows "compare_others d pretty r (pre @ p # rest) out
           = compare_others d pretty r (pre @ [p]) out"
  using assms(1)
proof (induction pre arbitrary: out)
  case Nil
  show ?case
    using assms(2,3) by (simp add: Let_def load_json_def DeepDiff_nonempty_def)
next
  case (Cons q pre)
  then obtain u where "d q = Holds u" "deep_equiv r u" by auto
  with Cons show ?case
    by (simp add: Let_def load_json_def DeepDiff_nonempty_def)
qed

lemma deep_equiv_samples:
  "deep_equiv reference_rows reordered_rows" "\<not> deep_equiv reference_rows changed_rows"
  "deep_equiv repeated_rows reordered_rows"
  by (simp_all add: reference_rows_def reordered_rows_def changed_rows_def repeated_rows_def)

text \<open>
  C3, amended. With fewer than two paths the comparison returns \<^verbatim>\<open>NO_COMPARISON\<close>. With a
  reference file that holds JSON, it returns \<^verbatim>\<open>SUCCESS\<close> exactly when every other file
  holds JSON that agrees with the reference up to the order and the repetition of list
  items (\<open>deep_equiv\<close>): a list in which a row is repeated agrees with the list that has
  the row once. At the first file that holds JSON differing from the reference beyond
  that, it returns \<^verbatim>\<open>FAILED\<close>, the last thing printed is the diff of that pair, and the
  paths after that file are not looked at. The rows \<^verbatim>\<open>[{"a":1},{"b":2}]\<close> agree with
  \<^verbatim>\<open>[{"b":2},{"a":1}]\<close> and differ from \<^verbatim>\<open>[{"a":1},{"b":3}]\<close>; the rows
  \<^verbatim>\<open>[{"a":1},{"a":1},{"b":2}]\<close> agree with \<^verbatim>\<open>[{"b":2},{"a":1}]\<close> too.
\<close>

theorem compare_json_files_deepdiff_outcomes:
  "(length file_paths < 2 \<longrightarrow>
      fst (compare_json_files_deepdiff d pretty file_paths) = Inr ''NO_COMPARISON'')
   \<and> (d reference_path = Holds r \<and> others \<noteq> [] \<longrightarrow>
        (fst (compare_json_files_deepdiff d pretty (reference_path # others)) = Inr ''SUCCESS''
           \<longleftrightarrow> (\<forall>p\<in>set others. \<exists>v. d p = Holds v \<and> deep_equiv r v)))
   \<and> (d reference_path = Holds r \<and> (\<forall>p\<in>set pre. \<exists>v. d p = Holds v \<and> deep_equiv r v)
        \<and> d other_path = Holds v \<and> \<not> deep_equiv r v \<longrightarrow>
        (\<exists>out. compare_json_files_deepdiff d pretty (reference_path # pre @ other_path # rest)
                 = (Inr ''FAILED'', out @ [pretty r v]))
        \<and> compare_json_files_deepdiff d pretty (reference_path # pre @ other_path # rest)
            = compare_json_files_deepdiff d pretty (reference_path # pre @ [other_path]))
   \<and> deep_equiv (JArr [JObj [(''a'', JInt 1)], JObj [(''b'', JInt 2)]])
                 (JArr [JObj [(''b'', JInt 2)], JObj [(''a'', JInt 1)]])
   \<and> \<not> deep_equiv (JArr [JObj [(''a'', JInt 1)], JObj [(''b'', JInt 2)]])
                   (JArr [JObj [(''a'', JInt 1)], JObj [(''b'', JInt 3)]])
   \<and> deep_equiv (JArr [JObj [(''a'', JInt 1)], JObj [(''a'', JInt 1)], JObj [(''b'', JInt 2)]])
                 (JArr [JObj [(''b'', JInt 2)], JObj [(''a'', JInt 1)]])
   \<and> (deep_equiv (JArr xs) (JArr ys) \<longleftrightarrow>
        (\<forall>x\<in>set xs. \<exists>y\<in>set ys. deep_equiv x y) \<and> (\<forall>y\<in>set ys. \<exists>x\<in>set xs. deep_equiv x y))"
proof (intro conjI impI)
  assume "length file_paths < 2"
  then show "fst (compare_json_files_deepdiff d pretty file_paths) = Inr ''NO_COMPARISON''"
    by (simp add: compare_json_files_deepdiff_def)
next
  assume a: "d reference_path = Holds r \<and> others \<noteq> []"
  then have "\<not> length (reference_path # others) < 2"
    by (cases others) simp_all
  with a show "fst (compare_json_files_deepdiff d pretty (reference_path # others)) = Inr ''SUCCESS''
           \<longleftrightarrow> (\<forall>p\<in>set others. \<exists>v. d p = Holds v \<and> deep_equiv r v)"
    by (simp add: compare_json_files_deepdiff_def load_json_def Let_def compare_others_success
          del: compare_others.simps)
next
  assume a: "d reference_path = Holds r \<and> (\<forall>p\<in>set pre. \<exists>v. d p = Holds v \<and> deep_equiv r v)
        \<and> d other_path = Holds v \<and> \<not> deep_equiv r v"
  have l: "\<not> length (reference_path # pre @ other_path # rest) < 2"
    "\<not> length (reference_path # pre @ [other_path]) < 2"
    by simp_all
  from a have m1: "\<exists>out'. compare_others d pretty r (pre @ other_path # rest) out
                   = (Inr ''FAILED'', out' @ [pretty r v])" for out
    using compare_others_first_mismatch [of pre d r other_path v pretty rest out] by blast
  from a have m2: "compare_others d pretty r (pre @ other_path # rest) out
           = compare_others d pretty r (pre @ [other_path]) out" for out
    using compare_others_short_circuit [of pre d r other_path v pretty rest out] by blast
  from a m1
  show "\<exists>out. compare_json_files_deepdiff d pretty (reference_path # pre @ other_path # rest)
                 = (Inr ''FAILED'', out @ [pretty r v])"
    using l(1) by (simp add: compare_json_files_deepdiff_def load_json_def Let_def
          del: compare_others.simps)
  from a m2
  show "compare_json_files_deepdiff d pretty (reference_path # pre @ other_path # rest)
            = compare_json_files_deepdiff d pretty (reference_path # pre @ [other_path])"
    using l by (simp add: compare_json_files_deepdiff_def load_json_def Let_def
          del: compare_others.simps)
qed simp_all

theorem compare_json_files_deepdiff_outcomes_witness:
  "fst (compare_json_files_deepdiff sample_disk sample_pretty [''logs/r1/extracted_data.json''])
     = Inr ''NO_COMPARISON''
   \<and> fst (compare_json_files_deepdiff sample_disk sample_pretty
            [''logs/r1/extracted_data.json'', ''logs/r2/extracted_data.json''])
     = Inr ''SUCCESS''
   \<and> fst (compare_json_files_deepdiff sample_disk sample_pretty
            [''logs/r1/extracted_data.json'', ''logs/r2/extracted_data.json'',
             ''logs/r3/extracted_data.json'', ''logs/r4/extracted_data.json''])
     = Inr ''FAILED''
   \<and> last (snd (compare_json_files_deepdiff sample_disk sample_pretty
            [''logs/r1/extracted_data.json'', ''logs/r2/extracted_data.json'',
             ''logs/r3/extracted_data.json'', ''logs/r4/extracted_data.json'']))
     = sample_pretty reference_rows changed_rows"
proof -
  have d: "sample_disk ''logs/r1/extracted_data.json'' = Holds reference_rows"
    "sample_disk ''logs/r2/extracted_data.json'' = Holds reordered_rows"
    "sample_disk ''logs/r3/extracted_data.json'' = Holds changed_rows"
    by (simp_all add: sample_disk_def)
  note t = compare_json_files_deepdiff_outcomes [where d = sample_disk and pretty = sample_pretty
      and reference_path = "''logs/r1/extracted_data.json''" and r = reference_rows]
  have 1: "fst (compare_json_files_deepdiff sample_disk sample_pretty [''logs/r1/extracted_data.json''])
     = Inr ''NO_COMPARISON''"
    using t [where file_paths = "[''logs/r1/extracted_data.json'']", THEN conjunct1] by simp
  have 2: "fst (compare_json_files_deepdiff sample_disk sample_pretty
            [''logs/r1/extracted_data.json'', ''logs/r2/extracted_data.json''])
     = Inr ''SUCCESS''"
    using t [where others = "[''logs/r2/extracted_data.json'']", THEN conjunct2, THEN conjunct1]
      d deep_equiv_samples(1) by simp
  have h: "sample_disk ''logs/r1/extracted_data.json'' = Holds reference_rows
      \<and> (\<forall>p\<in>set [''logs/r2/extracted_data.json''].
            \<exists>v. sample_disk p = Holds v \<and> deep_equiv reference_rows v)
      \<and> sample_disk ''logs/r3/extracted_data.json'' = Holds changed_rows
      \<and> \<not> deep_equiv reference_rows changed_rows"
    using d deep_equiv_samples by simp
  from t [where pre = "[''logs/r2/extracted_data.json'']"
        and other_path = "''logs/r3/extracted_data.json''" and v = changed_rows
        and rest = "[''logs/r4/extracted_data.json'']",
        THEN conjunct2, THEN conjunct2, THEN conjunct1, THEN mp, OF h, THEN conjunct1]
  obtain out where 3: "compare_json_files_deepdiff sample_disk sample_pretty
            [''logs/r1/extracted_data.json'', ''logs/r2/extracted_data.json'',
             ''logs/r3/extracted_data.json'', ''logs/r4/extracted_data.json'']
        = (Inr ''FAILED'', out @ [sample_pretty reference_rows changed_rows])"
    by auto
  from 1 2 3 show ?thesis by simp
qed

text \<open>
  A reference with a repeated row against a file with that row once: the two lists have
  three and two items, and the comparison returns \<^verbatim>\<open>SUCCESS\<close>.
\<close>

theorem compare_json_files_deepdiff_repetition_counterexample:
  "sample_disk ''logs/r5/extracted_data.json''
     = Holds (JArr [JObj [(''a'', JInt 1)], JObj [(''a'', JInt 1)], JObj [(''b'', JInt 2)]])
   \<and> sample_disk ''logs/r2/extracted_data.json''
     = Holds (JArr [JObj [(''b'', JInt 2)], JObj [(''a'', JInt 1)]])
   \<and> fst (compare_json_files_deepdiff sample_disk sample_pretty
            [''logs/r5/extracted_data.json'', ''logs/r2/extracted_data.json''])
     = Inr ''SUCCESS''"
proof -
  have d: "sample_disk ''logs/r5/extracted_data.json'' = Holds repeated_rows"
    "sample_disk ''logs/r2/extracted_data.json'' = Holds reordered_rows"
    by (simp_all add: sample_disk_def)
  have "fst (compare_others sample_disk sample_pretty repeated_rows
               [''logs/r2/extracted_data.json''] out) = Inr ''SUCCESS''" for out
    using d(2) deep_equiv_samples(3) by (simp add: compare_others_success del: compare_others.simps)
  then have "fst (compare_json_files_deepdiff sample_disk sample_pretty
            [''logs/r5/extracted_data.json'', ''logs/r2/extracted_data.json''])
     = Inr ''SUCCESS''"
    using d(1) by (simp add: compare_json_files_deepdiff_def load_json_def Let_def
          del: compare_others.simps)
  with d show ?thesis
    by (simp add: repeated_rows_def reordered_rows_def)
qed

text \<open>
  C6. A file whose bytes are not UTF-8 makes \<^verbatim>\<open>json.load\<close> raise \<^verbatim>\<open>UnicodeDecodeError\<close>,
  which neither handler catches: whether such a file is compared with the reference or is
  the reference itself, the comparison returns no label; the exception leaves it.
\<close>

theorem compare_json_files_deepdiff_propagates:
  "compare_json_files_deepdiff sample_disk sample_pretty
       [''logs/r1/extracted_data.json'', ''logs/r6/extracted_data.json'']
     = (Inl invalid_utf8,
        [''Using '' @ quoted ''extracted_data.json'' @ '' as the reference.'',
         ''Comparing with '' @ quoted ''extracted_data.json'' @ ''...''])
   \<and> compare_json_files_deepdiff sample_disk sample_pretty
       [''logs/r6/extracted_data.json'', ''logs/r1/extracted_data.json'']
     = (Inl invalid_utf8, [''Using '' @ quoted ''extracted_data.json'' @ '' as the reference.''])
   \<and> cls invalid_utf8 = UnicodeDecodeError"
  by (simp add: compare_json_files_deepdiff_def load_json_def sample_disk_def invalid_utf8_def
        basename_def Let_def)

section \<open>Constructing the agent\<close>

text \<open>
  C5. \<^verbatim>\<open>MultiModalTableInterpreter.__init__\<close> with a provider other than \<^verbatim>\<open>openai\<close>,
  \<^verbatim>\<open>google\<close> and \<^verbatim>\<open>bedrock\<close> raises \<^verbatim>\<open>ValueError\<close> and leaves the world as it was: the
  check comes before anything else. With one of the three it never raises \<^verbatim>\<open>ValueError\<close>,
  and unless a file is in the way of the log directory it returns the agent with the
  four fields set and the log directory made.
\<close>

theorem init_rejects_unknown_provider:
  "(p \<notin> {''openai'', ''google'', ''bedrock''} \<longrightarrow>
      (\<exists>m. init p model base prompt w = (Inl (Exn ValueError m None), w)))
   \<and> (p \<in> {''openai'', ''google'', ''bedrock''} \<longrightarrow>
        (\<forall>e. fst (init p model base prompt w) = Inl e \<longrightarrow> cls e \<noteq> ValueError)
        \<and> (base \<notin> dom (files w) \<longrightarrow>
             init p model base prompt w
               = (Inr \<lparr>provider = p, model_name = model, log_base_path = base,
                        system_prompt_path = prompt\<rparr>,
                  w\<lparr>dirs := insert base (dirs w)\<rparr>)))"
  by (auto simp: init_def makedirs_def Let_def)

theorem init_rejects_unknown_provider_witness:
  "fst (init ''anthropic'' ''claude-3'' ''./logs/run'' TABLE_EXTRACTOR_MODEL_FILE_PATH fresh_thread)
     = Inl (Exn ValueError (''Provider must be one of '' @ quoted ''openai'' @ '', ''
              @ quoted ''google'' @ '', or '' @ quoted ''bedrock'') None)
   \<and> snd (init ''anthropic'' ''claude-3'' ''./logs/run'' TABLE_EXTRACTOR_MODEL_FILE_PATH fresh_thread)
     = fresh_thread
   \<and> init ''bedrock'' ''us.anthropic.claude-3-5-sonnet-20240620-v1:0'' ''./logs/bedrock_sonet35''
        TABLE_EXTRACTOR_MODEL_FILE_PATH fresh_thread
     = (Inr \<lparr>provider = ''bedrock'',
              model_name = ''us.anthropic.claude-3-5-sonnet-20240620-v1:0'',
              log_base_path = ''./logs/bedrock_sonet35'',
              system_prompt_path = TABLE_EXTRACTOR_MODEL_FILE_PATH\<rparr>,
        fresh_thread\<lparr>dirs := {''./logs/bedrock_sonet35''}\<rparr>)"
proof -
  have a: "''anthropic'' \<notin> {''openai'', ''google'', ''bedrock''}"
    and b: "''bedrock'' \<in> {''openai'', ''google'', ''bedrock''}"
    and f: "''./logs/bedrock_sonet35'' \<notin> dom (files fresh_thread)"
      "dirs fresh_thread = {}"
    by (simp_all add: fresh_thread_def)
  from init_rejects_unknown_provider [of "''anthropic''" "''claude-3''" "''./logs/run''"
      TABLE_EXTRACTOR_MODEL_FILE_PATH fresh_thread, THEN conjunct1, THEN mp, OF a]
  obtain m where m: "init ''anthropic'' ''claude-3'' ''./logs/run'' TABLE_EXTRACTOR_MODEL_FILE_PATH
      fresh_thread = (Inl (Exn ValueError m None), fresh_thread)"
    by blast
  have "m = ''Provider must be one of '' @ quoted ''openai'' @ '', ''
              @ quoted ''google'' @ '', or '' @ quoted ''bedrock''"
    using m by (simp add: init_def)
  with m init_rejects_unknown_provider [of "''bedrock''"
      "''us.anthropic.claude-3-5-sonnet-20240620-v1:0''" "''./logs/bedrock_sonet35''"
      TABLE_EXTRACTOR_MODEL_FILE_PATH fresh_thread, THEN conjunct2, THEN mp, OF b,
      THEN conjunct2, THEN mp, OF f(1)] f(2)
  show ?thesis by simp
qed

section \<open>Listing the images of a folder\<close>








section \<open>The image codec\<close>

lemma index_of_nth: "distinct xs \<Longrightarrow> k < length xs \<Longrightarrow> index_of (xs ! k) xs = Some k"
proof (induction xs arbitrary: k)
  case Nil
  then show ?case by simp
next
  case (Cons x xs)
  then show ?case by (cases k) auto
qed

lemma b64_alphabet_facts:
  "distinct b64_alphabet" "length b64_alphabet = 64" "CHR ''='' \<notin> set b64_alphabet"
  by (simp_all add: b64_alphabet_def)

lemma b64_index_char: "k < 64 \<Longrightarrow> b64_index (b64_char k) = Some k"
  by (simp add: b64_index_def b64_char_def index_of_nth b64_alphabet_facts)

lemma b64_char_not_pad: "k < 64 \<Longrightarrow> b64_char k \<noteq> CHR ''=''"
  using b64_alphabet_facts(3) nth_mem [of k b64_alphabet]
  by (metis b64_char_def b64_alphabet_facts(2))

lemma sextets_sum:
  fixes n :: nat
  shows "n div 262144 * 262144 + n div 4096 mod 64 * 4096 + n div 64 mod 64 * 64 + n mod 64 = n"
proof -
  have e1: "n = n div 64 * 64 + n mod 64" by simp
  have e2: "n div 64 = n div 64 div 64 * 64 + n div 64 mod 64" by simp
  have e3: "n div 64 div 64 = n div 4096" by (simp add: div_mult2_eq)
  have e4: "n div 4096 = n div 4096 div 64 * 64 + n div 4096 mod 64" by simp
  have e5: "n div 4096 div 64 = n div 262144" by (simp add: div_mult2_eq)
  from e1 e2 e3 e4 e5 show ?thesis by linarith
qed

lemma sextet_index:
  fixes n :: nat
  assumes "n < 16777216"
  shows "b64_index (b64_char (n div 262144)) = Some (n div 262144)"
    "b64_index (b64_char (n div 4096 mod 64)) = Some (n div 4096 mod 64)"
    "b64_index (b64_char (n div 64 mod 64)) = Some (n div 64 mod 64)"
    "b64_index (b64_char (n mod 64)) = Some (n mod 64)"
    "b64_char (n div 64 mod 64) \<noteq> CHR ''=''"
    "b64_char (n mod 64) \<noteq> CHR ''=''"
  using assms by (simp_all add: b64_index_char b64_char_not_pad less_mult_imp_div_less)

lemma bytes3:
  fixes a b c :: byte
  shows "unat a * 65536 + unat b * 256 + unat c < 16777216"
    "of_nat ((unat a * 65536 + unat b * 256 + unat c) div 65536) = a"
    "of_nat ((unat a * 65536 + unat b * 256 + unat c) div 256 mod 256) = b"
    "of_nat ((unat a * 65536 + unat b * 256 + unat c) mod 256) = c"
proof -
  have la: "unat a < 256" and lb: "unat b < 256" and lc: "unat c < 256"
    using unsigned_less [of a] unsigned_less [of b] unsigned_less [of c] by simp_all
  show "unat a * 65536 + unat b * 256 + unat c < 16777216"
    using la lb lc by linarith
  have "unat b * 256 + unat c < 65536"
    using lb lc by linarith
  then have "(unat a * 65536 + (unat b * 256 + unat c)) div 65536 = unat a"
    by simp
  then have "(unat a * 65536 + unat b * 256 + unat c) div 65536 = unat a"
    by (simp add: add.assoc)
  then show "of_nat ((unat a * 65536 + unat b * 256 + unat c) div 65536) = a" by simp
  have "((unat a * 256 + unat b) * 256 + unat c) div 256 = unat a * 256 + unat b"
    using lc by simp
  then have "(unat a * 65536 + unat b * 256 + unat c) div 256 = unat a * 256 + unat b"
    by (simp add: algebra_simps)
  then have "(unat a * 65536 + unat b * 256 + unat c) div 256 mod 256 = unat b"
    using lb by simp
  then show "of_nat ((unat a * 65536 + unat b * 256 + unat c) div 256 mod 256) = b" by simp
  have "(unat a * 65536 + unat b * 256 + unat c) mod 256 = unat c"
    using lc by (simp add: mod_add_eq [symmetric])
  then show "of_nat ((unat a * 65536 + unat b * 256 + unat c) mod 256) = c" by simp
qed

lemma decode_one:
  fixes a :: byte
  shows "b64decode (b64encode [a]) = Some [a]"
proof -
  define n where "n = unat a * 65536"
  have n: "n < 16777216" "of_nat (n div 65536) = a"
    using bytes3(1,2) [of a 0 0] by (simp_all add: n_def)
  have z: "n div 64 mod 64 = 0" "n mod 64 = 0"
    by (simp_all add: n_def mod_eq_0_iff_dvd)
  have s: "n div 262144 * 262144 + n div 4096 mod 64 * 4096 = n"
    using sextets_sum [of n] z by simp
  show ?thesis
    using sextet_index(1,2) [OF n(1)] n(2) s by (simp add: n_def [symmetric] Let_def)
qed

lemma decode_two:
  fixes a b :: byte
  shows "b64decode (b64encode [a, b]) = Some [a, b]"
proof -
  define n where "n = unat a * 65536 + unat b * 256"
  have n: "n < 16777216" "of_nat (n div 65536) = a" "of_nat (n div 256 mod 256) = b"
    using bytes3(1,2,3) [of a b 0] by (simp_all add: n_def)
  have z: "n mod 64 = 0"
    by (simp add: n_def mod_eq_0_iff_dvd)
  have s: "n div 262144 * 262144 + n div 4096 mod 64 * 4096 + n div 64 mod 64 * 64 = n"
    using sextets_sum [of n] z by simp
  show ?thesis
    using sextet_index(1,2,3,5) [OF n(1)] n(2,3) s by (simp add: n_def [symmetric] Let_def)
qed

lemma decode_three:
  fixes a b c :: byte
  assumes "b64decode (b64encode rest) = Some rest"
  shows "b64decode (b64encode (a # b # c # rest)) = Some (a # b # c # rest)"
proof -
  define n where "n = unat a * 65536 + unat b * 256 + unat c"
  have n: "n < 16777216" "of_nat (n div 65536) = a" "of_nat (n div 256 mod 256) = b"
      "of_nat (n mod 256) = c"
    using bytes3 [of a b c] by (simp_all add: n_def)
  note s = sextets_sum [of n]
  show ?thesis
    using sextet_index [OF n(1)] n(2,3,4) s assms by (simp add: n_def [symmetric] Let_def)
qed

lemma b64decode_b64encode: "b64decode (b64encode bs) = Some bs"
proof (induction bs rule: b64encode.induct)
  case 1
  show ?case by simp
next
  case (2 a)
  show ?case by (rule decode_one)
next
  case (3 a b)
  show ?case by (rule decode_two)
next
  case (4 a b c rest)
  from 4 [OF refl] show ?case by (rule decode_three)
qed

text \<open>
  C8. Decoding what the codec produced gives back the bytes that were read: for every
  byte sequence \<open>bs\<close>, \<open>b64decode (b64encode bs) = Some bs\<close>, and whenever reading a file
  gives \<open>bs\<close>, both \<open>get_image_as_base64\<close> functions return a string that decodes to \<open>bs\<close>
  (the older one when the path exists).
\<close>

theorem get_image_as_base64_roundtrip:
  "b64decode (b64encode bs) = Some bs
   \<and> (read_bytes env image_path = Some bs \<longrightarrow>
        (\<exists>s. get_image_as_base64 env image_path = Some s \<and> b64decode s = Some bs))
   \<and> (read_bytes env image_path = Some bs \<and> path_exists env image_path \<longrightarrow>
        (\<exists>s. table_agent_get_image_as_base64 env image_path = Some s \<and> b64decode s = Some bs))"
  by (simp add: get_image_as_base64_def table_agent_get_image_as_base64_def b64decode_b64encode)

theorem get_image_as_base64_roundtrip_witness:
  "get_image_as_base64 sample_env ''logs/tables/section_1.png'' = Some ''TWFu''
   \<and> table_agent_get_image_as_base64 sample_env ''logs/tables/section_1.png'' = Some ''TWFu''
   \<and> b64decode ''TWFu'' = Some [77, 97, 110]"
proof -
  have r: "read_bytes sample_env ''logs/tables/section_1.png'' = Some [77, 97, 110]"
    and p: "path_exists sample_env ''logs/tables/section_1.png''"
    by (simp_all add: sample_env_def)
  have e: "b64encode [77, 97, 110] = ''TWFu''"
    by (simp add: b64_char_def b64_alphabet_def)
  from get_image_as_base64_roundtrip [of "[77, 97, 110]" sample_env "''logs/tables/section_1.png''"]
    r p e
  show ?thesis
    by (simp add: get_image_as_base64_def table_agent_get_image_as_base64_def)
qed

section \<open>Sequential batch processing\<close>

lemma process_image_encode_failure:
  assumes "get_image_as_base64 env (path_join folder_path filename) = None
           \<or> get_image_as_base64 env (path_join folder_path filename) = Some []"
  shows "process_image env call_agent request_id_prefix folder_path filename a
           = (JObj [(''error'', JStr ''Failed to encode image''), (''filename'', JStr filename)], a)"
  using assms by (auto simp: process_image_def Let_def)

lemma process_image_call_failure:
  assumes "get_image_as_base64 env (path_join folder_path filename) = Some b" and "b \<noteq> []"
    and "call_agent a (request_id_prefix @ ''_'' @ stem filename) ''{}'' [b] = (Inl e, a')"
  shows "process_image env call_agent request_id_prefix folder_path filename a
           = (JObj [(''error'', JStr (str_exn e)), (''filename'', JStr filename)], a')"
  using assms by (simp add: process_image_def Let_def)

lemma process_image_response:
  assumes "get_image_as_base64 env (path_join folder_path filename) = Some b" and "b \<noteq> []"
    and "call_agent a (request_id_prefix @ ''_'' @ stem filename) ''{}'' [b] = (Inr response, a')"
  shows "process_image env call_agent request_id_prefix folder_path filename a
           = (single_table_data response, a')"
  using assms by (simp add: process_image_def Let_def)

text \<open>The list given to the loop is kept in front of the entries that the loop appends.\<close>

lemma process_images_acc:
  "process_images env call_agent pre folder_path names acc a
     = (acc @ fst (process_images env call_agent pre folder_path names [] a),
        snd (process_images env call_agent pre folder_path names [] a))"
proof (induction names arbitrary: acc a)
  case Nil
  show ?case by simp
next
  case (Cons filename names)
  obtain entry a' where e: "process_image env call_agent pre folder_path filename a = (entry, a')"
    by (cases "process_image env call_agent pre folder_path filename a")
  show ?case
    using Cons [of "acc @ [entry]" a'] Cons [of "[entry]" a'] by (simp add: e)
qed

lemma process_images_Cons:
  "process_images env call_agent pre folder_path (filename # names) [] a
     = (fst (process_image env call_agent pre folder_path filename a)
          # fst (process_images env call_agent pre folder_path names []
                   (snd (process_image env call_agent pre folder_path filename a))),
        snd (process_images env call_agent pre folder_path names []
               (snd (process_image env call_agent pre folder_path filename a))))"
proof -
  obtain entry a' where e: "process_image env call_agent pre folder_path filename a = (entry, a')"
    by (cases "process_image env call_agent pre folder_path filename a")
  show ?thesis
    using process_images_acc [of env call_agent pre folder_path names "[entry]" a']
    by (simp add: e)
qed

lemma length_process_images:
  "length (fst (process_images env call_agent pre folder_path names [] a)) = length names"
proof (induction names arbitrary: a)
  case Nil
  show ?case by simp
next
  case (Cons filename names)
  then show ?case by (simp add: process_images_Cons del: process_images.simps(2))
qed

text \<open>
  Entry \<open>i\<close> of the result is what the loop body makes of the \<open>i\<close>-th name, in the state
  in which the agent was left by the names before it.
\<close>

lemma nth_process_images:
  "i < length names \<Longrightarrow>
   fst (process_images env call_agent pre folder_path names [] a) ! i
     = fst (process_image env call_agent pre folder_path (names ! i)
              (snd (process_images env call_agent pre folder_path (take i names) [] a)))"
proof (induction names arbitrary: i a)
  case Nil
  then show ?case by simp
next
  case (Cons filename names)
  show ?case
  proof (cases i)
    case 0
    then show ?thesis by (simp add: process_images_Cons del: process_images.simps(2))
  next
    case (Suc j)
    with Cons.prems have "j < length names" by simp
    from Cons.IH [OF this] Suc show ?thesis
      by (simp add: process_images_Cons del: process_images.simps(2))
  qed
qed

text \<open>
  C4. When the folder is a directory, \<open>process_folder_sequentially\<close> returns a list and
  writes the same list to the output path. The list has one entry for each image file of
  the folder, in the order of \<open>image_files\<close>: entry \<open>i\<close> is the error entry naming file
  \<open>i\<close> when that file cannot be encoded or when the agent raises for it, and the agent's
  (unwrapped) response otherwise; the loop goes on to the next file in every case.
\<close>

theorem process_folder_sequentially_complete:
  assumes "isdir env folder_path" and "names = image_files (listdir env folder_path)"
  shows "\<exists>out a'.
      process_folder_sequentially env call_agent pre folder_path output_path a fs
        = (Some out, a', fs(output_path \<mapsto> JsonDump (JArr out)))
      \<and> length out = length names
      \<and> (\<forall>i<length names.
            out ! i = fst (process_image env call_agent pre folder_path (names ! i)
                       (snd (process_images env call_agent pre folder_path (take i names) [] a)))
            \<and> (get_image_as_base64 env (path_join folder_path (names ! i)) = None
                 \<or> get_image_as_base64 env (path_join folder_path (names ! i)) = Some [] \<longrightarrow>
                 out ! i = JObj [(''error'', JStr ''Failed to encode image''),
                                 (''filename'', JStr (names ! i))])
            \<and> (\<forall>b e a''. get_image_as_base64 env (path_join folder_path (names ! i)) = Some b
                   \<and> b \<noteq> []
                   \<and> call_agent (snd (process_images env call_agent pre folder_path
                                         (take i names) [] a))
                        (pre @ ''_'' @ stem (names ! i)) ''{}'' [b] = (Inl e, a'') \<longrightarrow>
                 out ! i = JObj [(''error'', JStr (str_exn e)),
                                 (''filename'', JStr (names ! i))]))"
proof -
  define out where "out = fst (process_images env call_agent pre folder_path names [] a)"
  define a' where "a' = snd (process_images env call_agent pre folder_path names [] a)"
  have r: "process_folder_sequentially env call_agent pre folder_path output_path a fs
        = (Some out, a', fs(output_path \<mapsto> JsonDump (JArr out)))"
    using assms by (simp add: process_folder_sequentially_def out_def a'_def split: prod.split)
  have l: "length out = length names"
    by (simp add: out_def length_process_images)
  have n: "out ! i = fst (process_image env call_agent pre folder_path (names ! i)
                       (snd (process_images env call_agent pre folder_path (take i names) [] a)))"
    if "i < length names" for i
    using that by (simp add: out_def nth_process_images)
  show ?thesis
    using r l n
    by (auto simp: process_image_encode_failure process_image_call_failure)
qed

lemma sample_names:
  "image_files (listdir sample_env ''logs/tables'')
     = [''section_1.png'', ''section_2.png'', ''section_3.png'', ''section_10.png'']"
proof -
  have "listdir sample_env ''logs/tables''
          = [''section_10.png'', ''section_2.png'', ''section_3.png'', ''section_1.png'']"
    by (simp add: sample_env_def)
  moreover have "image_files [''section_10.png'', ''section_2.png'', ''section_3.png'', ''section_1.png'']
     = [''section_1.png'', ''section_2.png'', ''section_3.png'', ''section_10.png'']"
    by code_simp
  ultimately show ?thesis by simp
qed

lemma sample_images:
  "get_image_as_base64 sample_env (path_join ''logs/tables'' ''section_1.png'') = Some ''TWFu''"
  "get_image_as_base64 sample_env (path_join ''logs/tables'' ''section_2.png'') = None"
  "get_image_as_base64 sample_env (path_join ''logs/tables'' ''section_3.png'') = Some ''TWE=''"
  "get_image_as_base64 sample_env (path_join ''logs/tables'' ''section_10.png'') = Some []"
  by (simp_all add: get_image_as_base64_def path_join_def startswith_def endswith_def
        sample_env_def b64_char_def b64_alphabet_def)

lemma sample_entries:
  "process_image sample_env sample_agent ''1'' ''logs/tables'' ''section_1.png'' k
     = (JObj [(''rows'', JInt 3)], Suc k)"
  "process_image sample_env sample_agent ''1'' ''logs/tables'' ''section_2.png'' k
     = (JObj [(''error'', JStr ''Failed to encode image''), (''filename'', JStr ''section_2.png'')], k)"
  "process_image sample_env sample_agent ''1'' ''logs/tables'' ''section_3.png'' k
     = (JObj [(''error'', JStr ''API call failed after all retries''),
              (''filename'', JStr ''section_3.png'')], Suc k)"
  "process_image sample_env sample_agent ''1'' ''logs/tables'' ''section_10.png'' k
     = (JObj [(''error'', JStr ''Failed to encode image''), (''filename'', JStr ''section_10.png'')], k)"
  by (simp_all add: process_image_def sample_images sample_agent_def single_table_data_def
        str_exn_def Let_def)

theorem process_folder_sequentially_complete_witness:
  "process_folder_sequentially sample_env sample_agent ''1'' ''logs/tables''
       ''logs/r1/extracted_data.json'' 0 Map.empty
     = (Some [JObj [(''rows'', JInt 3)],
              JObj [(''error'', JStr ''Failed to encode image''),
                    (''filename'', JStr ''section_2.png'')],
              JObj [(''error'', JStr ''API call failed after all retries''),
                    (''filename'', JStr ''section_3.png'')],
              JObj [(''error'', JStr ''Failed to encode image''),
                    (''filename'', JStr ''section_10.png'')]],
        2,
        [''logs/r1/extracted_data.json'' \<mapsto>
           JsonDump (JArr [JObj [(''rows'', JInt 3)],
              JObj [(''error'', JStr ''Failed to encode image''),
                    (''filename'', JStr ''section_2.png'')],
              JObj [(''error'', JStr ''API call failed after all retries''),
                    (''filename'', JStr ''section_3.png'')],
              JObj [(''error'', JStr ''Failed to encode image''),
                    (''filename'', JStr ''section_10.png'')]])])"
proof -
  have d: "isdir sample_env ''logs/tables''"
    by (simp add: sample_env_def)
  from process_folder_sequentially_complete [OF d sample_names [symmetric],
      of sample_agent "''1''" "''logs/r1/extracted_data.json''" 0 Map.empty]
  show ?thesis
    using d by (simp add: process_folder_sequentially_def sample_names sample_entries)
qed

text \<open>
  C10. In \<open>process_folder_sequentially\<close>, when the image of slot \<open>i\<close> was encoded and the
  agent returned \<open>response\<close> for it: if \<open>response\<close> is a list of exactly one element, the
  slot holds that element; in every other case (an empty or longer list, a dict, a
  scalar, \<^verbatim>\<open>None\<close>) the slot holds \<open>response\<close> unchanged.
\<close>

theorem single_item_list_unwrapped:
  assumes "isdir env folder_path" and "names = image_files (listdir env folder_path)"
    and "i < length names"
    and "get_image_as_base64 env (path_join folder_path (names ! i)) = Some b" and "b \<noteq> []"
    and "call_agent (snd (process_images env call_agent pre folder_path (take i names) [] a))
           (pre @ ''_'' @ stem (names ! i)) ''{}'' [b] = (Inr response, a'')"
  shows "\<exists>out. fst (process_folder_sequentially env call_agent pre folder_path output_path a fs)
                 = Some out
           \<and> (\<forall>x. response = JArr [x] \<longrightarrow> out ! i = x)
           \<and> ((\<forall>x. response \<noteq> JArr [x]) \<longrightarrow> out ! i = response)"
proof -
  define out where "out = fst (process_images env call_agent pre folder_path names [] a)"
  have r: "fst (process_folder_sequentially env call_agent pre folder_path output_path a fs)
             = Some out"
    using assms(1,2) by (simp add: process_folder_sequentially_def out_def split: prod.split)
  have n: "out ! i = single_table_data response"
    using assms(3) process_image_response [where call_agent = call_agent
        and a = "snd (process_images env call_agent pre folder_path (take i names) [] a)"
        and request_id_prefix = pre, OF assms(4,5,6)]
    by (simp add: out_def nth_process_images)
  have u: "single_table_data (JArr [x]) = x" for x
    by (simp add: single_table_data_def)
  have k: "single_table_data response = response" if "\<forall>x. response \<noteq> JArr [x]"
  proof (cases response)
    case (JArr items)
    with that have "length items \<noteq> 1"
      by (cases items) auto
    with JArr show ?thesis by (simp add: single_table_data_def)
  qed (simp_all add: single_table_data_def)
  show ?thesis
    using r n u k by auto
qed

theorem single_item_list_unwrapped_witness:
  "(the (fst (process_folder_sequentially sample_env sample_agent ''1'' ''logs/tables''
              ''logs/r1/extracted_data.json'' 0 Map.empty))) ! 0
     = JObj [(''rows'', JInt 3)]
   \<and> (the (fst (process_folder_sequentially sample_env silent_agent ''1'' ''logs/tables''
                ''logs/r2/extracted_data.json'' 0 Map.empty))) ! 0
     = JArr []"
proof -
  have d: "isdir sample_env ''logs/tables''"
    by (simp add: sample_env_def)
  have i: "0 < length [''section_1.png'', ''section_2.png'', ''section_3.png'', ''section_10.png'']"
    by simp
  have g: "get_image_as_base64 sample_env (path_join ''logs/tables''
             ([''section_1.png'', ''section_2.png'', ''section_3.png'', ''section_10.png''] ! 0))
           = Some ''TWFu''"
    and ne: "''TWFu'' \<noteq> []"
    by (simp_all add: sample_images)
  have c1: "sample_agent (snd (process_images sample_env sample_agent ''1'' ''logs/tables''
        (take 0 [''section_1.png'', ''section_2.png'', ''section_3.png'', ''section_10.png'']) [] 0))
      (''1'' @ ''_'' @ stem ([''section_1.png'', ''section_2.png'', ''section_3.png'',
                              ''section_10.png''] ! 0)) ''{}'' [''TWFu'']
      = (Inr (JArr [JObj [(''rows'', JInt 3)]]), 1)"
    by (simp add: sample_agent_def)
  have c2: "silent_agent (snd (process_images sample_env silent_agent ''1'' ''logs/tables''
        (take 0 [''section_1.png'', ''section_2.png'', ''section_3.png'', ''section_10.png'']) [] 0))
      (''1'' @ ''_'' @ stem ([''section_1.png'', ''section_2.png'', ''section_3.png'',
                              ''section_10.png''] ! 0)) ''{}'' [''TWFu'']
      = (Inr (JArr []), 1)"
    by (simp add: silent_agent_def)
  from single_item_list_unwrapped [where call_agent = sample_agent and a = 0 and pre = "''1''"
        and output_path = "''logs/r1/extracted_data.json''" and fs = Map.empty,
        OF d sample_names [symmetric] i g ne c1]
    single_item_list_unwrapped [where call_agent = silent_agent and a = 0 and pre = "''1''"
        and output_path = "''logs/r2/extracted_data.json''" and fs = Map.empty,
        OF d sample_names [symmetric] i g ne c2]
  show ?thesis by auto
qed

end
